theory Spec2Isabelle
  imports Complex_Main "HOL-Library.Char_ord" "HOL-Library.List_Lexorder" "HOL-Library.Multiset"
begin

section \<open>The AdaNet iteration (adanet/core/iteration.py)\<close>

text \<open>
  The module builds, for one AdaNet iteration, a TensorFlow graph: candidates are wrapped
  ensembles, and the "best" outputs are graph nodes that select among the candidates with
  an index that is only known when the graph runs. The embedding therefore has two layers:
  the graph the Python code constructs (datatypes \<open>tensor\<close> and \<open>op\<close>, built by the
  functions named after the Python methods), and what the selection and completion nodes
  compute when the graph is run (\<open>eval_index\<close>, \<open>eval_bool\<close>, \<open>run_op\<close>).
\<close>

subsection \<open>Python values and exceptions\<close>

datatype error =
    ValueError string
  | TypeError string
  | AttributeError string
  | IndexError string
  | KeyError string

text \<open>
  The arguments of \<open>_Iteration.__new__\<close> are unchecked Python values; only their dynamic
  type, their truth value and (for the number) their integer value are inspected.
  \<open>NpInteger\<close> is an instance of \<open>numpy.integer\<close>; \<open>PyBool\<close> is a subclass of \<open>int\<close> in
  Python, so \<open>isinstance(True, int)\<close> holds.
\<close>

datatype pyval =
    PyNone
  | PyBool bool
  | PyInt int
  | NpInteger int
  | PyFloat real
  | PyStr string
  | PyList "pyval list"
  | PyTuple "pyval list"
  | PyDict "(pyval \<times> pyval) list"
  | PyObject nat

fun isinstance_int :: "pyval \<Rightarrow> bool" where
  "isinstance_int (PyInt _) = True"
| "isinstance_int (PyBool _) = True"
| "isinstance_int (NpInteger _) = True"
| "isinstance_int _ = False"

fun int_value :: "pyval \<Rightarrow> int" where
  "int_value (PyInt i) = i"
| "int_value (NpInteger i) = i"
| "int_value (PyBool b) = (if b then 1 else 0)"
| "int_value _ = 0"

fun isinstance_list :: "pyval \<Rightarrow> bool" where
  "isinstance_list (PyList _) = True"
| "isinstance_list _ = False"

fun isinstance_dict :: "pyval \<Rightarrow> bool" where
  "isinstance_dict (PyDict _) = True"
| "isinstance_dict _ = False"

text \<open>Python truthiness, as used by \<open>not candidates\<close>.\<close>

fun truthy :: "pyval \<Rightarrow> bool" where
  "truthy PyNone = False"
| "truthy (PyBool b) = b"
| "truthy (PyInt i) = (i \<noteq> 0)"
| "truthy (NpInteger i) = (i \<noteq> 0)"
| "truthy (PyFloat r) = (r \<noteq> 0)"
| "truthy (PyStr s) = (s \<noteq> [])"
| "truthy (PyList xs) = (xs \<noteq> [])"
| "truthy (PyTuple xs) = (xs \<noteq> [])"
| "truthy (PyDict kvs) = (kvs \<noteq> [])"
| "truthy (PyObject _) = True"

text \<open>Decimal rendering of integers, for \<open>"%d"\<close> and \<open>"{}".format(i)\<close>.\<close>

definition digit_char :: "nat \<Rightarrow> char" where
  "digit_char d = ''0123456789'' ! d"

function str_nat :: "nat \<Rightarrow> string" where
  "str_nat n = (if n < 10 then [digit_char n] else str_nat (n div 10) @ [digit_char (n mod 10)])"
  by pat_completeness auto
termination
  by (relation "measure id") auto

declare str_nat.simps [simp del]

definition str_int :: "int \<Rightarrow> string" where
  "str_int i = (if i < 0 then CHR ''-'' # str_nat (nat (- i)) else str_nat (nat i))"

subsection \<open>The \<open>_Iteration\<close> record and its validating constructor\<close>

text \<open>
  The named tuple has eight fields. The constructor receives unchecked Python values;
  \<open>build_iteration\<close> fills the same record with the graph objects it has built, so
  the record is polymorphic in the type of each field.
\<close>

record ('n, 'c, 'e, 'b, 's, 'f, 'r, 't) Iteration =
  number :: 'n
  candidates :: 'c
  estimator_spec :: 'e
  best_candidate_index :: 'b
  summaries :: 's
  is_over_fn :: 'f
  subnetwork_reports :: 'r
  step :: 't

definition Iteration_new ::
  "pyval \<Rightarrow> pyval \<Rightarrow> pyval \<Rightarrow> pyval \<Rightarrow> pyval \<Rightarrow> pyval \<Rightarrow> pyval \<Rightarrow> pyval
    \<Rightarrow> error + (pyval, pyval, pyval, pyval, pyval, pyval, pyval, pyval) Iteration" where
  "Iteration_new num cands espec best_idx summs over_fn reports stp =
    (if \<not> isinstance_int num then Inl (ValueError ''number must be an integer'')
     else if int_value num < 0 then
       Inl (ValueError (''number must be greater than 0 got '' @ str_int (int_value num)))
     else if \<not> isinstance_list cands \<or> \<not> truthy cands then
       Inl (ValueError ''candidates must be a non-empty list'')
     else if espec = PyNone then Inl (ValueError ''estimator_spec is required'')
     else if best_idx = PyNone then Inl (ValueError ''best_candidate_index is required'')
     else if \<not> isinstance_dict reports then
       Inl (ValueError ''subnetwork_reports must be a dict'')
     else if stp = PyNone then Inl (ValueError ''step is required'')
     else Inr \<lparr> number = num, candidates = cands, estimator_spec = espec,
                best_candidate_index = best_idx, summaries = summs, is_over_fn = over_fn,
                subnetwork_reports = reports, step = stp \<rparr>)"

text \<open>
  The conditions of the specification, in its own words: the number is a non-negative
  integer, the candidates are a non-empty list, the estimator spec, the best candidate
  index and the step are present, and the reports are a mapping.
\<close>

fun non_negative_integer :: "pyval \<Rightarrow> bool" where
  "non_negative_integer (PyInt i) = (0 \<le> i)"
| "non_negative_integer (NpInteger i) = (0 \<le> i)"
| "non_negative_integer (PyBool b) = True"
| "non_negative_integer _ = False"

fun non_empty_list :: "pyval \<Rightarrow> bool" where
  "non_empty_list (PyList (x # xs)) = True"
| "non_empty_list _ = False"

fun is_mapping :: "pyval \<Rightarrow> bool" where
  "is_mapping (PyDict kvs) = True"
| "is_mapping _ = False"

definition present :: "pyval \<Rightarrow> bool" where
  "present v \<longleftrightarrow> v \<noteq> PyNone"

definition valid_iteration_args ::
  "pyval \<Rightarrow> pyval \<Rightarrow> pyval \<Rightarrow> pyval \<Rightarrow> pyval \<Rightarrow> pyval \<Rightarrow> bool" where
  "valid_iteration_args num cands espec best_idx reports stp \<longleftrightarrow>
     non_negative_integer num \<and> non_empty_list cands \<and> present espec \<and> present best_idx
     \<and> present stp \<and> is_mapping reports"

definition descriptive :: "error \<Rightarrow> bool" where
  "descriptive e = (case e of ValueError msg \<Rightarrow> msg \<noteq> [] | _ \<Rightarrow> False)"


subsection \<open>The graph: tensors and operations\<close>

datatype mode = TRAIN | EVAL | PREDICT

text \<open>
  The three variables the module reads or writes: TensorFlow's global step, the
  iteration's own \<open>step\<close> variable, and \<open>is_over_var\<close>.
\<close>

datatype var = GlobalStepVar | IterationStepVar | IsOverVar

text \<open>
  A tensor is either supplied by a collaborator (\<open>GraphTensor\<close>, opaque) or one of the
  nodes this module creates: \<open>tf.constant\<close>, \<open>tf.convert_to_tensor\<close> of a variable,
  \<open>tf.argmin(xs, axis=0)\<close>, \<open>tf.stack(xs)[i]\<close>,
  \<open>tf.reshape(tf.slice(tf.stack(xs), [i], [1]), [])\<close>, \<open>tf.tile([t], [n])\<close>, the value
  tensor of \<open>tf.metrics.mean(t)\<close>, \<open>tf.cast(t, tf.int32)\<close>, \<open>tf.logical_and\<close> and
  \<open>tf.logical_not\<close>.
\<close>

datatype tensor =
    GraphTensor nat
  | Constant int
  | BoolConstant bool
  | ReadVar var
  | ArgMin "tensor list"
  | StackIndex "tensor list" tensor
  | SliceReshape "tensor list" tensor
  | Tile tensor nat
  | MeanValue tensor
  | CastInt32 tensor
  | LogicalAnd tensor tensor
  | LogicalNot tensor

text \<open>
  An operation is supplied by a collaborator (\<open>GraphOp\<close>) or created here: \<open>tf.no_op\<close>,
  \<open>tf.assign(v, b)\<close>, \<open>tf.assign_add(v, k)\<close>, \<open>tf.cond(c, a, b)\<close>, \<open>tf.group\<close>, the
  update operation of \<open>tf.metrics.mean(t)\<close>, and an operation created under
  \<open>tf.control_dependencies(deps)\<close>.
\<close>

datatype op =
    NoOp
  | GraphOp nat
  | AssignBool var bool
  | AssignAdd var int
  | Cond tensor op op
  | Group "op list"
  | ControlDependencies "op list" op
  | MeanUpdate tensor

type_synonym metric = "tensor \<times> op"

definition metrics_mean :: "tensor \<Rightarrow> metric" where
  "metrics_mean t = (MeanValue t, MeanUpdate t)"

subsection \<open>Dictionaries\<close>

text \<open>
  A Python \<open>dict\<close> is an association list in insertion order; \<open>d[k] = v\<close> replaces the
  value of an existing key in place and appends a new key. \<open>sorted(d)\<close> is the sorted
  list of the keys; Python compares strings lexicographically by code point, which is the
  order of \<open>Char_ord\<close> and \<open>List_Lexorder\<close>.
\<close>

fun dict_set :: "'k \<Rightarrow> 'v \<Rightarrow> ('k \<times> 'v) list \<Rightarrow> ('k \<times> 'v) list" where
  "dict_set k v [] = [(k, v)]"
| "dict_set k v ((k', v') # d) = (if k = k' then (k, v) # d else (k', v') # dict_set k v d)"

definition sorted_keys :: "(string \<times> 'v) list \<Rightarrow> string list" where
  "sorted_keys d = sort (remdups (map fst d))"

definition endswith :: "string \<Rightarrow> string \<Rightarrow> bool" where
  "endswith s suffix \<longleftrightarrow>
     length suffix \<le> length s \<and> drop (length s - length suffix) s = suffix"

subsection \<open>Collaborator records\<close>

text \<open>
  Modelled from the spec: \<open>TrainOpSpec\<close>, \<open>_EnsembleSpec\<close>, \<open>_Candidate\<close>,
  \<open>subnetwork.Report\<close>, the subnetwork \<open>Builder\<close> and \<open>_ScopedSummary\<close> are declared in
  other modules of the repository, and \<open>tf.estimator.EstimatorSpec\<close> and the export
  output classes in TensorFlow. The records below carry the fields this module reads or
  writes, with the kinds of value sections 3 and 6 of the specification give them: a
  prediction is a tensor or a mapping of named tensors, eval metrics are a function and
  its arguments or none, a train-operation bundle has a train op and optional chief-only
  and regular hooks. The checks of the \<open>EstimatorSpec\<close> and \<open>ExportOutput\<close> constructors
  are TensorFlow's and are not part of the model.
\<close>

record TrainOpSpec =
  train_op :: op
  chief_hooks :: "nat list option"
  hooks :: "nat list option"

datatype predictions_value =
    TensorPredictions tensor
  | DictPredictions "(string \<times> tensor) list"

datatype export_output =
    ClassificationOutput "tensor option" "tensor option"
  | RegressionOutput tensor
  | PredictOutput predictions_value
  | OtherOutput nat

type_synonym kwargs = "(string \<times> tensor) list"
type_synonym metric_fn = "kwargs \<Rightarrow> (string \<times> metric) list"

record EnsembleSpec =
  name :: string
  loss :: tensor
  adanet_loss :: tensor
  predictions :: predictions_value
  eval_metrics :: "(metric_fn \<times> kwargs) option"
  export_outputs :: "(string \<times> export_output) list"
  subnetwork_train_op :: "TrainOpSpec option"
  ensemble_train_op :: "TrainOpSpec option"

record Candidate =
  ensemble_spec :: EnsembleSpec
  is_training :: tensor
  adanet_loss :: tensor

record Report =
  hparams :: "(string \<times> pyval) list"
  attributes :: "(string \<times> pyval) list"
  metrics :: "(string \<times> metric) list"

record Builder =
  name :: string
  build_subnetwork_report :: "Report option"

datatype ScopedSummary = ScopedSummary string bool

record EstimatorSpec =
  mode :: mode
  predictions :: predictions_value
  loss :: "tensor option"
  train_op :: op
  eval_metric_ops :: "(string \<times> metric) list option"
  export_outputs :: "(string \<times> export_output) list option"
  training_chief_hooks :: "nat list"
  training_hooks :: "nat list"

subsection \<open>What the selection and completion nodes compute when the graph runs\<close>

text \<open>
  Modelled from the spec: \<open>tf.argmin\<close> is TensorFlow's and its code is not in the
  repository. Section 4.2 of the specification: the index is "the position of the minimum
  adanet-loss value among all candidates' losses (ties resolved by earliest-index-wins, the
  natural behavior of a leftmost-minimum argmin)"; TensorFlow's documentation of
  \<open>tf.math.argmin\<close> says "In case of identity returns the smallest index", where the
  documentation of the 1.x releases left ties unspecified. The scan below goes from left
  to right and keeps the first position of the smallest value seen. Loss values are taken
  as reals: a floating-point NaN has no place in the order and is not modelled.
\<close>

fun argmin_scan :: "nat \<Rightarrow> real \<Rightarrow> nat \<Rightarrow> real list \<Rightarrow> nat" where
  "argmin_scan best_i best_v i [] = best_i"
| "argmin_scan best_i best_v i (x # xs) =
     (if x < best_v then argmin_scan i x (Suc i) xs else argmin_scan best_i best_v (Suc i) xs)"

fun argmin :: "real list \<Rightarrow> nat" where
  "argmin [] = 0"
| "argmin (x # xs) = argmin_scan 0 x 1 xs"

text \<open>
  The value of an index node in one run, given the value \<open>v t\<close> every loss tensor \<open>t\<close>
  has in that run. Only the two nodes \<open>_best_candidate_index\<close> creates have a value here.
\<close>

fun eval_index :: "(tensor \<Rightarrow> real) \<Rightarrow> tensor \<Rightarrow> nat option" where
  "eval_index v (Constant i) = Some (nat i)"
| "eval_index v (ArgMin ts) = Some (argmin (map v ts))"
| "eval_index v _ = None"

text \<open>
  The value of a boolean node in one run, given the value \<open>b t\<close> in that run of every
  tensor that is not a boolean node of this module.
\<close>

fun eval_bool :: "(tensor \<Rightarrow> bool) \<Rightarrow> tensor \<Rightarrow> bool" where
  "eval_bool b (BoolConstant c) = c"
| "eval_bool b (LogicalAnd x y) = (eval_bool b x \<and> eval_bool b y)"
| "eval_bool b (LogicalNot x) = (\<not> eval_bool b x)"
| "eval_bool b t = b t"

text \<open>
  The state a run changes: the three variables, and the log of collaborator operations
  that have run (their own effects are outside this module).
\<close>

record run_state =
  global_step :: int
  iteration_step :: int
  is_over :: bool
  executed :: "op list"

fun assign_bool :: "var \<Rightarrow> bool \<Rightarrow> run_state \<Rightarrow> run_state" where
  "assign_bool IsOverVar c s = s\<lparr>is_over := c\<rparr>"
| "assign_bool _ c s = s"

fun assign_add :: "var \<Rightarrow> int \<Rightarrow> run_state \<Rightarrow> run_state" where
  "assign_add GlobalStepVar k s = s\<lparr>global_step := global_step s + k\<rparr>"
| "assign_add IterationStepVar k s = s\<lparr>iteration_step := iteration_step s + k\<rparr>"
| "assign_add IsOverVar k s = s"

text \<open>
  Running one operation to completion, with TensorFlow's meaning of the operations:
  \<open>tf.cond\<close> runs the branch its condition selects, \<open>tf.assign\<close> and \<open>tf.assign_add\<close>
  write the variable, a collaborator's operation is logged. The members of a group and of
  a dependency list are run here in list order; \<open>schedules\<close> below gives the orders
  TensorFlow may choose for the operation a pass runs.
\<close>

fun run_op :: "(tensor \<Rightarrow> bool) \<Rightarrow> op \<Rightarrow> run_state \<Rightarrow> run_state"
  and run_ops :: "(tensor \<Rightarrow> bool) \<Rightarrow> op list \<Rightarrow> run_state \<Rightarrow> run_state" where
  "run_op b NoOp s = s"
| "run_op b (GraphOp n) s = s\<lparr>executed := executed s @ [GraphOp n]\<rparr>"
| "run_op b (MeanUpdate t) s = s\<lparr>executed := executed s @ [MeanUpdate t]\<rparr>"
| "run_op b (AssignBool x c) s = assign_bool x c s"
| "run_op b (AssignAdd x k) s = assign_add x k s"
| "run_op b (Cond c t e) s = (if eval_bool b c then run_op b t s else run_op b e s)"
| "run_op b (Group os) s = run_ops b os s"
| "run_op b (ControlDependencies deps body) s = run_op b body (run_ops b deps s)"
| "run_ops b [] s = s"
| "run_ops b (x # xs) s = run_ops b xs (run_op b x s)"

text \<open>
  The orders in which TensorFlow may run the members of the operation of a pass: the
  members of a group in any order, and everything created under
  \<open>tf.control_dependencies(deps)\<close> only after every operation of \<open>deps\<close> has run, those
  in any order. Each member is run to completion by \<open>run_op\<close>.
\<close>

fun insert_everywhere :: "'a \<Rightarrow> 'a list \<Rightarrow> 'a list list" where
  "insert_everywhere x [] = [[x]]"
| "insert_everywhere x (y # ys) = (x # y # ys) # map ((#) y) (insert_everywhere x ys)"

fun permutations :: "'a list \<Rightarrow> 'a list list" where
  "permutations [] = [[]]"
| "permutations (x # xs) = concat (map (insert_everywhere x) (permutations xs))"

fun schedules :: "op \<Rightarrow> op list list" where
  "schedules (ControlDependencies deps body) =
     concat (map (\<lambda>d. map (\<lambda>b. d @ b) (schedules body)) (permutations deps))"
| "schedules (Group os) = permutations os"
| "schedules x = [[x]]"

subsection \<open>\<open>_is_over_var\<close> and \<open>_assign_is_over\<close>\<close>

text \<open>
  \<open>_is_over_var\<close> creates the boolean variable with \<open>tf.zeros_initializer()\<close>, that is,
  with initial value \<open>False\<close>; \<open>is_over_var_template\<close> returns that variable on every call.
\<close>

definition is_over_var_initial :: bool where
  "is_over_var_initial = False"

definition is_over_var_template :: "unit \<Rightarrow> var" where
  "is_over_var_template u = IsOverVar"

definition is_over_condition :: "Candidate list \<Rightarrow> tensor" where
  "is_over_condition cands =
     foldl (\<lambda>is_over candidate. LogicalAnd is_over (LogicalNot (is_training candidate)))
       (BoolConstant True) cands"

definition assign_is_over :: "Candidate list \<Rightarrow> (unit \<Rightarrow> var) \<Rightarrow> op" where
  "assign_is_over cands template =
     Cond (is_over_condition cands) (AssignBool (template ()) True) NoOp"

text \<open>A sequence of passes, each with its own values of the \<open>is_training\<close> tensors.\<close>

fun run_passes :: "op \<Rightarrow> (tensor \<Rightarrow> bool) list \<Rightarrow> run_state \<Rightarrow> run_state" where
  "run_passes x [] s = s"
| "run_passes x (b # bs) s = run_passes x bs (run_op b x s)"

subsection \<open>\<open>_create_train_op\<close>\<close>

fun candidate_train_ops :: "Candidate list \<Rightarrow> error + op list" where
  "candidate_train_ops [] = Inr []"
| "candidate_train_ops (candidate # rest) =
     (case subnetwork_train_op (ensemble_spec candidate) of
        None \<Rightarrow> candidate_train_ops rest
      | Some sub \<Rightarrow>
          (case ensemble_train_op (ensemble_spec candidate) of
             None \<Rightarrow> Inl (AttributeError ''NoneType object has no attribute train_op'')
           | Some ens \<Rightarrow>
               (case candidate_train_ops rest of
                  Inl e \<Rightarrow> Inl e
                | Inr ops \<Rightarrow> Inr (TrainOpSpec.train_op sub # TrainOpSpec.train_op ens # ops))))"

definition create_train_op ::
  "Candidate list \<Rightarrow> mode \<Rightarrow> var \<Rightarrow> (unit \<Rightarrow> var) \<Rightarrow> error + op" where
  "create_train_op cands md stp template =
     (if md \<noteq> TRAIN then Inr NoOp
      else case candidate_train_ops cands of
        Inl e \<Rightarrow> Inl e
      | Inr train_ops \<Rightarrow>
          Inr (ControlDependencies (train_ops @ [assign_is_over cands template])
                 (Group [AssignAdd GlobalStepVar 1, AssignAdd stp 1])))"

subsection \<open>\<open>_best_candidate_index\<close>, \<open>_best_predictions\<close>, \<open>_best_loss\<close>\<close>

definition best_candidate_index :: "Candidate list \<Rightarrow> tensor" where
  "best_candidate_index cands =
     (if length cands = 1 then Constant 0
      else ArgMin (map Candidate.adanet_loss cands))"

text \<open>
  The accumulator \<open>predictions\<close> of the loop of \<open>_best_predictions\<close>: \<open>None\<close>, a dict of
  tensor lists, or a list of tensors. \<open>not predictions\<close> holds for \<open>None\<close> and for an
  empty dict or list.
\<close>

datatype predictions_acc =
    NoPredictions
  | DictAcc "(string \<times> tensor list) list"
  | ListAcc "tensor list"

fun not_predictions :: "predictions_acc \<Rightarrow> bool" where
  "not_predictions NoPredictions = True"
| "not_predictions (DictAcc d) = (d = [])"
| "not_predictions (ListAcc xs) = (xs = [])"

definition append_prediction ::
  "(string \<times> tensor) list \<Rightarrow> string \<Rightarrow> (string \<times> tensor list) list
    \<Rightarrow> (string \<times> tensor list) list" where
  "append_prediction d key acc =
     (case map_of d key of
        None \<Rightarrow> acc
      | Some tensor \<Rightarrow>
          (case map_of acc key of
             Some tensors \<Rightarrow> dict_set key (tensors @ [tensor]) acc
           | None \<Rightarrow> dict_set key [tensor] acc))"

fun collect_predictions :: "predictions_acc \<Rightarrow> Candidate \<Rightarrow> error + predictions_acc" where
  "collect_predictions acc candidate =
     (case EnsembleSpec.predictions (ensemble_spec candidate) of
        DictPredictions d \<Rightarrow>
          (case (if not_predictions acc then DictAcc [] else acc) of
             DictAcc g \<Rightarrow> Inr (DictAcc (foldl (\<lambda>g key. append_prediction d key g) g (sorted_keys d)))
           | ListAcc xs \<Rightarrow>
               (if sorted_keys d = [] then Inr (ListAcc xs)
                else Inl (TypeError ''list indices must be integers or slices, not str''))
           | NoPredictions \<Rightarrow> Inr (DictAcc []))
      | TensorPredictions t \<Rightarrow>
          (case (if not_predictions acc then ListAcc [] else acc) of
             ListAcc xs \<Rightarrow> Inr (ListAcc (xs @ [t]))
           | DictAcc g \<Rightarrow> Inl (AttributeError ''dict object has no attribute append'')
           | NoPredictions \<Rightarrow> Inr (ListAcc [t])))"

fun collect_all_predictions ::
  "predictions_acc \<Rightarrow> Candidate list \<Rightarrow> error + predictions_acc" where
  "collect_all_predictions acc [] = Inr acc"
| "collect_all_predictions acc (candidate # rest) =
     (case collect_predictions acc candidate of
        Inl e \<Rightarrow> Inl e
      | Inr acc' \<Rightarrow> collect_all_predictions acc' rest)"

definition best_predictions :: "Candidate list \<Rightarrow> tensor \<Rightarrow> error + predictions_value" where
  "best_predictions cands best_index =
     (case cands of
        [candidate] \<Rightarrow> Inr (EnsembleSpec.predictions (ensemble_spec candidate))
      | _ \<Rightarrow>
        (case collect_all_predictions NoPredictions cands of
           Inl e \<Rightarrow> Inl e
         | Inr (DictAcc g) \<Rightarrow>
             Inr (DictPredictions
               (List.map_filter
                  (\<lambda>key. map_option (\<lambda>tensors. (key, StackIndex tensors best_index))
                     (map_of g key))
                  (sorted_keys g)))
         | Inr (ListAcc xs) \<Rightarrow> Inr (TensorPredictions (StackIndex xs best_index))
         | Inr NoPredictions \<Rightarrow> Inl (ValueError ''tf.stack of None'')))"

definition best_loss :: "Candidate list \<Rightarrow> tensor \<Rightarrow> mode \<Rightarrow> tensor option" where
  "best_loss cands best_index md =
     (if md = PREDICT then None
      else case cands of
        [candidate] \<Rightarrow> Some (EnsembleSpec.loss (ensemble_spec candidate))
      | _ \<Rightarrow> Some (SliceReshape (map (\<lambda>c. EnsembleSpec.loss (ensemble_spec c)) cands)
                     best_index))"

subsection \<open>\<open>_best_export_outputs\<close>\<close>

text \<open>
  The first loop groups, per export key, the tensors of the candidates: a pair of lists
  (scores, classes) for a \<open>ClassificationOutput\<close>, one list for a \<open>RegressionOutput\<close>.
  Appending to a group of the other kind fails in Python, as written out below.
\<close>

datatype export_group =
    ClassificationGroup "tensor list" "tensor list"
  | RegressionGroup "tensor list"

definition append_scores ::
  "string \<Rightarrow> tensor option \<Rightarrow> (string \<times> export_group) list
    \<Rightarrow> error + (string \<times> export_group) list" where
  "append_scores key scores g =
     (case scores of
        None \<Rightarrow> Inr g
      | Some t \<Rightarrow>
          (case map_of g key of
             Some (ClassificationGroup ss cs) \<Rightarrow>
               Inr (dict_set key (ClassificationGroup (ss @ [t]) cs) g)
           | Some (RegressionGroup xs) \<Rightarrow>
               (if xs = [] then Inl (IndexError ''list index out of range'')
                else Inl (AttributeError ''Tensor object has no attribute append''))
           | None \<Rightarrow> Inl (KeyError key)))"

definition append_classes ::
  "string \<Rightarrow> tensor option \<Rightarrow> (string \<times> export_group) list
    \<Rightarrow> error + (string \<times> export_group) list" where
  "append_classes key classes g =
     (case classes of
        None \<Rightarrow> Inr g
      | Some t \<Rightarrow>
          (case map_of g key of
             Some (ClassificationGroup ss cs) \<Rightarrow>
               Inr (dict_set key (ClassificationGroup ss (cs @ [t])) g)
           | Some (RegressionGroup xs) \<Rightarrow>
               (if length xs < 2 then Inl (IndexError ''list index out of range'')
                else Inl (AttributeError ''Tensor object has no attribute append''))
           | None \<Rightarrow> Inl (KeyError key)))"

definition group_export_output ::
  "string \<Rightarrow> export_output \<Rightarrow> (string \<times> export_group) list
    \<Rightarrow> error + (string \<times> export_group) list" where
  "group_export_output key export_output g =
     (case export_output of
        ClassificationOutput scores classes \<Rightarrow>
          (case append_scores key scores
                  (if map_of g key = None then dict_set key (ClassificationGroup [] []) g else g) of
             Inl e \<Rightarrow> Inl e
           | Inr g' \<Rightarrow> append_classes key classes g')
      | RegressionOutput v \<Rightarrow>
          (case map_of (if map_of g key = None then dict_set key (RegressionGroup []) g else g) key of
             Some (RegressionGroup xs) \<Rightarrow> Inr (dict_set key (RegressionGroup (xs @ [v])) g)
           | Some (ClassificationGroup ss cs) \<Rightarrow>
               Inl (AttributeError ''tuple object has no attribute append'')
           | None \<Rightarrow> Inl (KeyError key))
      | PredictOutput p \<Rightarrow> Inr g
      | OtherOutput n \<Rightarrow>
          Inl (TypeError (''Values in export_outputs must be ClassificationOutput, ''
                 @ ''RegressionOutput, or PredictOutput objects. Given: '' @ str_nat n)))"

fun group_export_outputs ::
  "(string \<times> export_output) list \<Rightarrow> string list \<Rightarrow> (string \<times> export_group) list
    \<Rightarrow> error + (string \<times> export_group) list" where
  "group_export_outputs d [] g = Inr g"
| "group_export_outputs d (key # keys) g =
     (case map_of d key of
        None \<Rightarrow> group_export_outputs d keys g
      | Some export_output \<Rightarrow>
          (case group_export_output key export_output g of
             Inl e \<Rightarrow> Inl e
           | Inr g' \<Rightarrow> group_export_outputs d keys g'))"

fun group_all_export_outputs ::
  "Candidate list \<Rightarrow> (string \<times> export_group) list
    \<Rightarrow> error + (string \<times> export_group) list" where
  "group_all_export_outputs [] g = Inr g"
| "group_all_export_outputs (candidate # rest) g =
     (case group_export_outputs (EnsembleSpec.export_outputs (ensemble_spec candidate))
             (sorted_keys (EnsembleSpec.export_outputs (ensemble_spec candidate))) g of
        Inl e \<Rightarrow> Inl e
      | Inr g' \<Rightarrow> group_all_export_outputs rest g')"

text \<open>
  The second loop follows the keys and kinds of the first candidate. A group of the other
  kind cannot be met there (the first loop has failed by then); the model returns a
  \<open>TypeError\<close> in these branches.
\<close>

definition stack_export_output ::
  "(string \<times> export_group) list \<Rightarrow> tensor \<Rightarrow> predictions_value \<Rightarrow> string
    \<Rightarrow> export_output \<Rightarrow> error + export_output" where
  "stack_export_output g best_index best_preds key export_output =
     (case export_output of
        ClassificationOutput scores classes \<Rightarrow>
          (case map_of g key of
             Some (ClassificationGroup ss cs) \<Rightarrow>
               Inr (ClassificationOutput
                 (if ss \<noteq> [] then Some (StackIndex ss best_index) else None)
                 (if cs \<noteq> [] then Some (StackIndex cs best_index) else None))
           | Some (RegressionGroup xs) \<Rightarrow> Inl (TypeError ''group of another kind'')
           | None \<Rightarrow> Inl (KeyError key))
      | RegressionOutput v \<Rightarrow>
          (case map_of g key of
             Some (RegressionGroup xs) \<Rightarrow> Inr (RegressionOutput (StackIndex xs best_index))
           | Some (ClassificationGroup ss cs) \<Rightarrow> Inl (TypeError ''group of another kind'')
           | None \<Rightarrow> Inl (KeyError key))
      | _ \<Rightarrow> Inr (PredictOutput best_preds))"

fun stack_export_outputs ::
  "(string \<times> export_group) list \<Rightarrow> tensor \<Rightarrow> predictions_value
    \<Rightarrow> (string \<times> export_output) list \<Rightarrow> string list
    \<Rightarrow> error + (string \<times> export_output) list" where
  "stack_export_outputs g best_index best_preds d [] = Inr []"
| "stack_export_outputs g best_index best_preds d (key # keys) =
     (case map_of d key of
        None \<Rightarrow> stack_export_outputs g best_index best_preds d keys
      | Some export_output \<Rightarrow>
          (case stack_export_output g best_index best_preds key export_output of
             Inl e \<Rightarrow> Inl e
           | Inr output \<Rightarrow>
               (case stack_export_outputs g best_index best_preds d keys of
                  Inl e \<Rightarrow> Inl e
                | Inr outputs \<Rightarrow> Inr ((key, output) # outputs))))"

definition best_export_outputs ::
  "Candidate list \<Rightarrow> tensor \<Rightarrow> mode \<Rightarrow> predictions_value
    \<Rightarrow> error + (string \<times> export_output) list option" where
  "best_export_outputs cands best_index md best_preds =
     (if md \<noteq> PREDICT then Inr None
      else case cands of
        [candidate] \<Rightarrow> Inr (Some (EnsembleSpec.export_outputs (ensemble_spec candidate)))
      | [] \<Rightarrow> Inl (IndexError ''list index out of range'')
      | first # _ \<Rightarrow>
          (case group_all_export_outputs cands [] of
             Inl e \<Rightarrow> Inl e
           | Inr g \<Rightarrow>
               (case stack_export_outputs g best_index best_preds
                       (EnsembleSpec.export_outputs (ensemble_spec first))
                       (sorted_keys (EnsembleSpec.export_outputs (ensemble_spec first))) of
                  Inl e \<Rightarrow> Inl e
                | Inr outputs \<Rightarrow> Inr (Some outputs))))"

subsection \<open>Best evaluation metrics\<close>

text \<open>
  The dict \<open>tensors\<close> maps each candidate key to that candidate's metric arguments and
  the key \<open>"best_candidate_index"\<close> to a tensor.
\<close>

datatype tensors_entry = KwargsEntry kwargs | TensorEntry tensor

datatype flat_tensors = Flattened "(string \<times> tensors_entry) list"

text \<open>
  Modelled from the spec: \<open>dict_utils.flatten_dict\<close> and \<open>dict_utils.unflatten_dict\<close>
  are not in this module. Section 6 of the specification: flattening is a pure structural
  transform, and flattening then unflattening with the same key set reproduces the
  original nested structure exactly. The pair is modelled as that round trip.
\<close>

definition flatten_dict :: "(string \<times> tensors_entry) list \<Rightarrow> flat_tensors" where
  "flatten_dict tensors = Flattened tensors"

fun unflatten_dict :: "flat_tensors \<Rightarrow> string list \<Rightarrow> (string \<times> tensors_entry) list" where
  "unflatten_dict (Flattened tensors) prefixes = tensors"

definition candidate_key :: "nat \<Rightarrow> string" where
  "candidate_key i = ''candidate_'' @ str_nat i"

fun collate_from ::
  "nat \<Rightarrow> Candidate list \<Rightarrow> (string \<times> metric_fn) list \<times> (string \<times> tensors_entry) list" where
  "collate_from i [] = ([], [])"
| "collate_from i (candidate # rest) =
     (case eval_metrics (ensemble_spec candidate) of
        None \<Rightarrow> collate_from (Suc i) rest
      | Some (fn, metric_tensors) \<Rightarrow>
          (case collate_from (Suc i) rest of
             (fns, tensors) \<Rightarrow>
               ((candidate_key i, fn) # fns,
                (candidate_key i, KwargsEntry metric_tensors) # tensors)))"

definition collate_metric_fns_and_tensors ::
  "Candidate list \<Rightarrow> (string \<times> metric_fn) list \<times> (string \<times> tensors_entry) list" where
  "collate_metric_fns_and_tensors cands = collate_from 0 cands"

definition append_metric_op ::
  "(string \<times> metric) list \<Rightarrow> (string \<times> metric list) list \<Rightarrow> string
    \<Rightarrow> (string \<times> metric list) list" where
  "append_metric_op ops grouped metric_name =
     (case map_of ops metric_name of
        None \<Rightarrow> grouped
      | Some metric_op \<Rightarrow>
          (case map_of grouped metric_name of
             None \<Rightarrow> dict_set metric_name [metric_op] grouped
           | Some collected \<Rightarrow> dict_set metric_name (collected @ [metric_op]) grouped))"

fun group_metric_ops_keys ::
  "(string \<times> metric_fn) list \<Rightarrow> (string \<times> tensors_entry) list \<Rightarrow> string list
    \<Rightarrow> (string \<times> metric list) list \<Rightarrow> error + (string \<times> metric list) list" where
  "group_metric_ops_keys metric_fns tensors [] grouped = Inr grouped"
| "group_metric_ops_keys metric_fns tensors (key # keys) grouped =
     (case map_of metric_fns key of
        None \<Rightarrow> group_metric_ops_keys metric_fns tensors keys grouped
      | Some fn \<Rightarrow>
          (case map_of tensors key of
             Some (KwargsEntry args) \<Rightarrow>
               group_metric_ops_keys metric_fns tensors keys
                 (foldl (append_metric_op (fn args)) grouped (sorted_keys (fn args)))
           | Some (TensorEntry t) \<Rightarrow> Inl (TypeError ''argument after ** must be a mapping'')
           | None \<Rightarrow> Inl (KeyError key)))"

definition group_metric_ops ::
  "(string \<times> metric_fn) list \<Rightarrow> (string \<times> tensors_entry) list
    \<Rightarrow> error + (string \<times> metric list) list" where
  "group_metric_ops metric_fns tensors =
     group_metric_ops_keys metric_fns tensors (sorted_keys metric_fns) []"

definition suffix :: string where
  "suffix = ''/adanet/adanet_weighted_ensemble''"

definition best_candidate_metric :: "metric list \<Rightarrow> tensor \<Rightarrow> metric" where
  "best_candidate_metric metric_ops best_index_tensor =
     (case metrics_mean best_index_tensor of
        (idx, idx_update_op) \<Rightarrow>
          (StackIndex (map fst metric_ops) (CastInt32 idx),
           Group (map snd metric_ops @ [idx_update_op])))"

fun best_eval_metrics_names ::
  "nat \<Rightarrow> (string \<times> tensors_entry) list \<Rightarrow> (string \<times> metric list) list \<Rightarrow> string list
    \<Rightarrow> (string \<times> metric) list \<Rightarrow> error + (string \<times> metric) list" where
  "best_eval_metrics_names n tensors grouped [] ops = Inr ops"
| "best_eval_metrics_names n tensors grouped (metric_name # names) ops =
     (case map_of grouped metric_name of
        None \<Rightarrow> best_eval_metrics_names n tensors grouped names ops
      | Some metric_ops \<Rightarrow>
          (if length metric_ops \<noteq> n then best_eval_metrics_names n tensors grouped names ops
           else case map_of tensors ''best_candidate_index'' of
             Some (TensorEntry best_index_tensor) \<Rightarrow>
               (let best = best_candidate_metric metric_ops best_index_tensor;
                    ops1 = dict_set metric_name best ops
                in if \<not> endswith metric_name suffix then
                     best_eval_metrics_names n tensors grouped names ops1
                   else let root_metric_name =
                              take (length metric_name - length suffix) metric_name
                        in if root_metric_name = ''loss'' then
                             best_eval_metrics_names n tensors grouped names ops1
                           else best_eval_metrics_names n tensors grouped names
                                  (dict_set root_metric_name best ops1))
           | Some (KwargsEntry a) \<Rightarrow> Inl (TypeError ''best_candidate_index is not a tensor'')
           | None \<Rightarrow> Inl (KeyError ''best_candidate_index'')))"

definition best_eval_metrics_fn ::
  "Candidate list \<Rightarrow> (string \<times> metric_fn) list \<Rightarrow> flat_tensors
    \<Rightarrow> error + (string \<times> metric) list" where
  "best_eval_metrics_fn cands metric_fns flat =
     (let tensors = unflatten_dict flat (map fst metric_fns)
      in case group_metric_ops metric_fns tensors of
           Inl e \<Rightarrow> Inl e
         | Inr grouped_metrics \<Rightarrow>
             best_eval_metrics_names (length cands) tensors grouped_metrics
               (sorted_keys grouped_metrics) [])"

definition batch_size_of :: "(string \<times> nat) list option \<Rightarrow> nat" where
  "batch_size_of params =
     (case params of
        None \<Rightarrow> 1
      | Some d \<Rightarrow> (if d = [] then 1 else case map_of d ''batch_size'' of None \<Rightarrow> 1 | Some n \<Rightarrow> n))"

definition create_best_eval_metrics_tuple ::
  "Candidate list \<Rightarrow> tensor \<Rightarrow> mode \<Rightarrow> (string \<times> nat) list option
    \<Rightarrow> ((flat_tensors \<Rightarrow> error + (string \<times> metric) list) \<times> flat_tensors) option" where
  "create_best_eval_metrics_tuple cands best_index md params =
     (if md \<noteq> EVAL then None
      else case collate_metric_fns_and_tensors cands of
        (metric_fns, tensors) \<Rightarrow>
          Some (best_eval_metrics_fn cands metric_fns,
                flatten_dict (dict_set ''best_candidate_index''
                  (TensorEntry (Tile best_index (batch_size_of params))) tensors)))"

subsection \<open>\<open>build_iteration\<close>\<close>

text \<open>
  The two collaborators of the builder are objects of other modules; their methods are
  fields of the builder here. \<open>features\<close> and \<open>labels\<close> are passed through unread.
\<close>

record IterationBuilder =
  build_candidate ::
    "EnsembleSpec \<Rightarrow> bool \<Rightarrow> tensor \<Rightarrow> ScopedSummary option \<Rightarrow> bool \<Rightarrow> Candidate"
  append_new_subnetwork ::
    "string \<Rightarrow> EnsembleSpec option \<Rightarrow> int \<Rightarrow> Builder \<Rightarrow> ScopedSummary \<Rightarrow> pyval \<Rightarrow> mode
      \<Rightarrow> tensor \<Rightarrow> pyval \<Rightarrow> (string \<times> nat) list option \<Rightarrow> EnsembleSpec"
  replicate_ensemble_in_training :: bool

type_synonym built_iteration =
  "(int, Candidate list, EstimatorSpec, tensor, ScopedSummary option list, unit \<Rightarrow> var,
    (string \<times> Report) list, tensor) Iteration"

text \<open>
  The loop state: \<open>seen_builder_names\<close>, \<open>candidates\<close>, \<open>summaries\<close> and
  \<open>subnetwork_reports\<close>.
\<close>

type_synonym build_state =
  "string list \<times> Candidate list \<times> ScopedSummary option list \<times> (string \<times> Report) list"

definition ensemble_mode_of :: "bool \<Rightarrow> bool \<Rightarrow> mode \<Rightarrow> mode" where
  "ensemble_mode_of replicate_in_training rebuilding md =
     (if rebuilding then
        (let ensemble_mode = (if md = PREDICT then md else EVAL)
         in if replicate_in_training \<and> md = TRAIN then md else ensemble_mode)
      else md)"

definition metrics_of :: "(metric_fn \<times> kwargs) option \<Rightarrow> (string \<times> metric) list" where
  "metrics_of em = (case em of None \<Rightarrow> [] | Some (metric_fn, kw) \<Rightarrow> metric_fn kw)"

definition previous_ensemble_report :: "EnsembleSpec \<Rightarrow> Report" where
  "previous_ensemble_report previous_ensemble_spec =
     \<lparr> hparams = [], attributes = [],
       metrics = dict_set ''adanet_loss''
         (metrics_mean (EnsembleSpec.adanet_loss previous_ensemble_spec))
         (metrics_of (eval_metrics previous_ensemble_spec)) \<rparr>"

definition previous_best ::
  "IterationBuilder \<Rightarrow> mode \<Rightarrow> tensor \<Rightarrow> ScopedSummary option \<Rightarrow> EnsembleSpec option
    \<Rightarrow> build_state" where
  "previous_best builder md iteration_step_tensor previous_ensemble_summary previous =
     (case previous of
        None \<Rightarrow> ([], [], [], [])
      | Some previous_ensemble_spec \<Rightarrow>
          ([EnsembleSpec.name previous_ensemble_spec],
           [build_candidate builder previous_ensemble_spec (md = TRAIN) iteration_step_tensor
              previous_ensemble_summary True],
           [previous_ensemble_summary],
           (if md = EVAL then
              [(''previous_ensemble'', previous_ensemble_report previous_ensemble_spec)]
            else [])))"

definition builder_report :: "Builder \<Rightarrow> EnsembleSpec \<Rightarrow> Report" where
  "builder_report subnetwork_builder spec =
     (let subnetwork_report =
            (case build_subnetwork_report subnetwork_builder of
               None \<Rightarrow> \<lparr> hparams = [], attributes = [], metrics = [] \<rparr>
             | Some r \<Rightarrow> r);
          ms = metrics_of (eval_metrics spec);
          with_metrics =
            foldl (\<lambda>m metric_name.
                     case map_of ms metric_name of
                       None \<Rightarrow> m
                     | Some metric \<Rightarrow> dict_set metric_name metric m)
              (metrics subnetwork_report) (sorted_keys ms)
      in subnetwork_report
           \<lparr> metrics := dict_set ''adanet_loss'' (metrics_mean (EnsembleSpec.adanet_loss spec))
                          with_metrics \<rparr>)"

definition new_ensemble_name :: "int \<Rightarrow> Builder \<Rightarrow> string" where
  "new_ensemble_name iteration_number subnetwork_builder =
     ''t'' @ str_int iteration_number @ ''_'' @ Builder.name subnetwork_builder"

definition new_summary :: "int \<Rightarrow> mode \<Rightarrow> bool \<Rightarrow> Builder \<Rightarrow> ScopedSummary" where
  "new_summary iteration_number md rebuilding subnetwork_builder =
     ScopedSummary (new_ensemble_name iteration_number subnetwork_builder)
       (md = PREDICT \<or> rebuilding)"

definition new_ensemble_spec ::
  "IterationBuilder \<Rightarrow> int \<Rightarrow> pyval \<Rightarrow> mode \<Rightarrow> pyval \<Rightarrow> EnsembleSpec option \<Rightarrow> bool
    \<Rightarrow> (string \<times> nat) list option \<Rightarrow> tensor \<Rightarrow> Builder \<Rightarrow> EnsembleSpec" where
  "new_ensemble_spec builder iteration_number features md labels previous rebuilding params
     iteration_step_tensor subnetwork_builder =
     append_new_subnetwork builder (new_ensemble_name iteration_number subnetwork_builder)
       previous iteration_number subnetwork_builder
       (new_summary iteration_number md rebuilding subnetwork_builder) features
       (ensemble_mode_of (replicate_ensemble_in_training builder) rebuilding md)
       iteration_step_tensor labels params"

definition new_candidate ::
  "IterationBuilder \<Rightarrow> int \<Rightarrow> pyval \<Rightarrow> mode \<Rightarrow> pyval \<Rightarrow> EnsembleSpec option \<Rightarrow> bool
    \<Rightarrow> (string \<times> nat) list option \<Rightarrow> tensor \<Rightarrow> Builder \<Rightarrow> Candidate" where
  "new_candidate builder iteration_number features md labels previous rebuilding params
     iteration_step_tensor subnetwork_builder =
     build_candidate builder
       (new_ensemble_spec builder iteration_number features md labels previous rebuilding
          params iteration_step_tensor subnetwork_builder)
       (md = TRAIN) iteration_step_tensor
       (Some (new_summary iteration_number md rebuilding subnetwork_builder)) False"

definition collision_error :: "string \<Rightarrow> error" where
  "collision_error nm =
     ValueError (''Two ensembles have the same name '' @ [CHR 0x27] @ nm @ [CHR 0x27])"

definition add_subnetwork_builder ::
  "IterationBuilder \<Rightarrow> int \<Rightarrow> pyval \<Rightarrow> mode \<Rightarrow> pyval \<Rightarrow> EnsembleSpec option \<Rightarrow> bool
    \<Rightarrow> (string \<times> nat) list option \<Rightarrow> tensor \<Rightarrow> Builder \<Rightarrow> build_state
    \<Rightarrow> error + build_state" where
  "add_subnetwork_builder builder iteration_number features md labels previous rebuilding
     params iteration_step_tensor subnetwork_builder st =
     (case st of
        (seen_builder_names, cands, summs, reports) \<Rightarrow>
          (if Builder.name subnetwork_builder \<in> set seen_builder_names then
             Inl (collision_error (Builder.name subnetwork_builder))
           else
             Inr (seen_builder_names @ [Builder.name subnetwork_builder],
                  cands @ [new_candidate builder iteration_number features md labels previous
                             rebuilding params iteration_step_tensor subnetwork_builder],
                  summs @ [Some (new_summary iteration_number md rebuilding subnetwork_builder)],
                  (if md \<noteq> PREDICT then
                     dict_set (Builder.name subnetwork_builder)
                       (builder_report subnetwork_builder
                          (new_ensemble_spec builder iteration_number features md labels
                             previous rebuilding params iteration_step_tensor
                             subnetwork_builder))
                       reports
                   else reports))))"

fun for_each_builder ::
  "(Builder \<Rightarrow> build_state \<Rightarrow> error + build_state) \<Rightarrow> Builder list \<Rightarrow> build_state
    \<Rightarrow> error + build_state" where
  "for_each_builder body [] st = Inr st"
| "for_each_builder body (subnetwork_builder # rest) st =
     (case body subnetwork_builder st of
        Inl e \<Rightarrow> Inl e
      | Inr st' \<Rightarrow> for_each_builder body rest st')"

fun collect_hooks :: "Candidate list \<Rightarrow> error + nat list \<times> nat list" where
  "collect_hooks [] = Inr ([], [])"
| "collect_hooks (candidate # rest) =
     (case subnetwork_train_op (ensemble_spec candidate) of
        None \<Rightarrow> collect_hooks rest
      | Some sub \<Rightarrow>
          (case ensemble_train_op (ensemble_spec candidate) of
             None \<Rightarrow> Inl (AttributeError ''NoneType object has no attribute chief_hooks'')
           | Some ens \<Rightarrow>
               (case collect_hooks rest of
                  Inl e \<Rightarrow> Inl e
                | Inr (training_chief, training) \<Rightarrow>
                    Inr (case_option [] id (chief_hooks sub) @ case_option [] id (chief_hooks ens)
                           @ training_chief,
                         case_option [] id (hooks sub) @ case_option [] id (hooks ens)
                           @ training))))"

definition call_best_eval_metrics ::
  "((flat_tensors \<Rightarrow> error + (string \<times> metric) list) \<times> flat_tensors) option
    \<Rightarrow> error + (string \<times> metric) list option" where
  "call_best_eval_metrics best_eval_metrics =
     (case best_eval_metrics of
        None \<Rightarrow> Inr None
      | Some (metric_fn, kw) \<Rightarrow>
          (case metric_fn kw of Inl e \<Rightarrow> Inl e | Inr ops \<Rightarrow> Inr (Some ops)))"

definition assemble_iteration ::
  "int \<Rightarrow> mode \<Rightarrow> (string \<times> nat) list option \<Rightarrow> tensor \<Rightarrow> build_state
    \<Rightarrow> error + built_iteration" where
  "assemble_iteration iteration_number md params iteration_step_tensor st =
     (case st of
        (seen_builder_names, cands, summs, reports) \<Rightarrow>
          (let best_index = best_candidate_index cands
           in case best_predictions cands best_index of
                Inl e \<Rightarrow> Inl e
              | Inr best_preds \<Rightarrow>
           (case best_export_outputs cands best_index md best_preds of
                Inl e \<Rightarrow> Inl e
              | Inr best_exports \<Rightarrow>
           (case collect_hooks cands of
                Inl e \<Rightarrow> Inl e
              | Inr (training_chief, training) \<Rightarrow>
           (case call_best_eval_metrics
                   (create_best_eval_metrics_tuple cands best_index md params) of
                Inl e \<Rightarrow> Inl e
              | Inr metric_ops \<Rightarrow>
           (case create_train_op cands md IterationStepVar is_over_var_template of
                Inl e \<Rightarrow> Inl e
              | Inr train \<Rightarrow>
           (case Iteration_new (PyInt iteration_number) (PyList (map (\<lambda>c. PyObject 0) cands))
                   (PyObject 0) (PyObject 0) (PyList (map (\<lambda>c. PyObject 0) summs))
                   (PyObject 0) (PyDict (map (\<lambda>(k, r). (PyStr k, PyObject 0)) reports))
                   (PyObject 0) of
                Inl e \<Rightarrow> Inl e
              | Inr validated \<Rightarrow>
                  Inr \<lparr> number = iteration_number,
                        candidates = cands,
                        estimator_spec =
                          \<lparr> mode = md,
                            EstimatorSpec.predictions = best_preds,
                            EstimatorSpec.loss = best_loss cands best_index md,
                            EstimatorSpec.train_op = train,
                            eval_metric_ops = metric_ops,
                            EstimatorSpec.export_outputs = best_exports,
                            training_chief_hooks = training_chief,
                            training_hooks = training \<rparr>,
                        best_candidate_index = best_index,
                        summaries = summs,
                        is_over_fn = is_over_var_template,
                        subnetwork_reports = reports,
                        step = iteration_step_tensor \<rparr>)))))))"

definition build_iteration ::
  "IterationBuilder \<Rightarrow> int \<Rightarrow> Builder list \<Rightarrow> pyval \<Rightarrow> mode \<Rightarrow> pyval
    \<Rightarrow> ScopedSummary option \<Rightarrow> EnsembleSpec option \<Rightarrow> bool \<Rightarrow> (string \<times> nat) list option
    \<Rightarrow> error + built_iteration" where
  "build_iteration builder iteration_number subnetwork_builders features md labels
     previous_ensemble_summary previous_ensemble_spec rebuilding params =
     (if subnetwork_builders = [] then
        Inl (ValueError ''Each iteration must have at least one Builder.'')
      else
        let iteration_step_tensor = ReadVar IterationStepVar
        in case for_each_builder
                  (add_subnetwork_builder builder iteration_number features md labels
                     previous_ensemble_spec rebuilding params iteration_step_tensor)
                  subnetwork_builders
                  (previous_best builder md iteration_step_tensor previous_ensemble_summary
                     previous_ensemble_spec) of
             Inl e \<Rightarrow> Inl e
           | Inr st \<Rightarrow> assemble_iteration iteration_number md params iteration_step_tensor st)"

subsection \<open>Example inputs\<close>

text \<open>
  Concrete collaborators and candidates on which the theorems below are instantiated.
  \<open>example_spec nm k\<close> is an ensemble named \<open>nm\<close> whose tensors and operations are
  numbered from \<open>10 * k\<close>; \<open>frozen_spec\<close> is one without train operations, as the
  previous best ensemble is.
\<close>

definition example_spec :: "string \<Rightarrow> nat \<Rightarrow> EnsembleSpec" where
  "example_spec nm k =
     \<lparr> EnsembleSpec.name = nm,
       EnsembleSpec.loss = GraphTensor (10 * k),
       EnsembleSpec.adanet_loss = GraphTensor (10 * k + 1),
       EnsembleSpec.predictions = TensorPredictions (GraphTensor (10 * k + 2)),
       eval_metrics = None,
       EnsembleSpec.export_outputs = [(''serving'', RegressionOutput (GraphTensor (10 * k + 6)))],
       subnetwork_train_op =
         Some \<lparr> TrainOpSpec.train_op = GraphOp (10 * k + 3), chief_hooks = None, hooks = None \<rparr>,
       ensemble_train_op =
         Some \<lparr> TrainOpSpec.train_op = GraphOp (10 * k + 4), chief_hooks = None, hooks = None \<rparr> \<rparr>"

definition frozen_spec :: "string \<Rightarrow> nat \<Rightarrow> EnsembleSpec" where
  "frozen_spec nm k = (example_spec nm k) \<lparr> subnetwork_train_op := None, ensemble_train_op := None \<rparr>"

definition example_candidate :: "EnsembleSpec \<Rightarrow> Candidate" where
  "example_candidate spec =
     \<lparr> ensemble_spec = spec,
       is_training = (case EnsembleSpec.adanet_loss spec of
                        GraphTensor n \<Rightarrow> GraphTensor (n + 4) | t \<Rightarrow> t),
       Candidate.adanet_loss = EnsembleSpec.adanet_loss spec \<rparr>"

definition three_candidates :: "Candidate list" where
  "three_candidates =
     [example_candidate (example_spec ''a'' 0), example_candidate (example_spec ''b'' 1),
      example_candidate (example_spec ''c'' 2)]"

text \<open>The losses \<open>[0.5, 0.3, 0.3]\<close> of the three candidates.\<close>

definition example_losses :: "tensor \<Rightarrow> real" where
  "example_losses t =
     (if t = GraphTensor 1 then 0.5 else if t = GraphTensor 11 then 0.3
      else if t = GraphTensor 21 then 0.3 else 0)"

text \<open>A pass in which no candidate is training any more, and one in which all are.\<close>

definition all_done :: "tensor \<Rightarrow> bool" where
  "all_done t = False"

definition all_training :: "tensor \<Rightarrow> bool" where
  "all_training t = True"

definition initial_state :: run_state where
  "initial_state = \<lparr> global_step = 0, iteration_step = 0, is_over = is_over_var_initial,
     executed = [] \<rparr>"

text \<open>The carryover candidate, which has no train operations, and one new candidate.\<close>

definition carryover_and_new :: "Candidate list" where
  "carryover_and_new =
     [example_candidate (frozen_spec ''t0_linear'' 0), example_candidate (example_spec ''t1_dnn'' 1)]"

text \<open>
  Collaborators for the examples: the candidate builder wraps the ensemble it is given,
  and the ensemble builder returns an ensemble named as asked, numbered by the iteration,
  that reports the metrics \<open>accuracy\<close> and \<open>accuracy/adanet/adanet_weighted_ensemble\<close>.
\<close>

definition example_metric_fn :: "nat \<Rightarrow> string list \<Rightarrow> metric_fn" where
  "example_metric_fn k names kw =
     map (\<lambda>nm. (nm, (GraphTensor (100 * k + length nm), GraphOp (100 * k + length nm)))) names"

definition metric_spec :: "string \<Rightarrow> nat \<Rightarrow> string list \<Rightarrow> EnsembleSpec" where
  "metric_spec nm k names =
     (example_spec nm k) \<lparr> eval_metrics := Some (example_metric_fn k names, []) \<rparr>"

definition example_builder :: IterationBuilder where
  "example_builder =
     \<lparr> build_candidate = (\<lambda>spec training stp summary is_previous_best. example_candidate spec),
       append_new_subnetwork =
         (\<lambda>ensemble_name previous n b summary features md stp labels params.
            metric_spec ensemble_name (nat n)
              [''accuracy'', ''accuracy/adanet/adanet_weighted_ensemble'']),
       replicate_ensemble_in_training = False \<rparr>"

definition example_previous :: EnsembleSpec where
  "example_previous =
     (metric_spec ''t0_linear'' 0 [''accuracy''])
       \<lparr> subnetwork_train_op := None, ensemble_train_op := None \<rparr>"

definition dnn :: Builder where
  "dnn = \<lparr> Builder.name = ''dnn'', build_subnetwork_report = None \<rparr>"

definition linear :: Builder where
  "linear = \<lparr> Builder.name = ''linear'', build_subnetwork_report = None \<rparr>"

text \<open>What is read off a built iteration in the examples.\<close>

definition report_keys :: "error + built_iteration \<Rightarrow> error + string list" where
  "report_keys r = (case r of Inl e \<Rightarrow> Inl e | Inr it \<Rightarrow> Inr (map fst (subnetwork_reports it)))"

definition candidate_names :: "error + built_iteration \<Rightarrow> error + string list" where
  "candidate_names r =
     (case r of
        Inl e \<Rightarrow> Inl e
      | Inr it \<Rightarrow> Inr (map (\<lambda>c. EnsembleSpec.name (ensemble_spec c)) (candidates it)))"

subsection \<open>Notions used to state the properties of the best evaluation metrics\<close>

text \<open>
  \<open>candidate_metric m c\<close> is the metric named \<open>m\<close> that candidate \<open>c\<close> produces, if any;
  \<open>collected grouped m\<close> are the per-candidate operations collected under \<open>m\<close>;
  \<open>eligible n grouped m\<close> returns them when there are exactly \<open>n\<close>; \<open>source\<close> is the
  metric name whose operations end up under a key of the result; \<open>key_metric\<close> is the
  metric \<open>m\<close> of the function stored under a candidate key; \<open>best_tensors\<close> is the dict
  \<open>tensors\<close> of \<open>_create_best_eval_metrics_tuple\<close>; \<open>best_metric\<close> reads one entry of
  the mapping returned by the best-eval-metrics function.
\<close>

definition candidate_metric :: "string \<Rightarrow> Candidate \<Rightarrow> metric option" where
  "candidate_metric m c =
     (case eval_metrics (ensemble_spec c) of
        None \<Rightarrow> None
      | Some (fn, kw) \<Rightarrow> map_of (fn kw) m)"

definition collected :: "(string \<times> metric list) list \<Rightarrow> string \<Rightarrow> metric list" where
  "collected grouped m = (case map_of grouped m of None \<Rightarrow> [] | Some l \<Rightarrow> l)"

definition eligible :: "nat \<Rightarrow> (string \<times> metric list) list \<Rightarrow> string \<Rightarrow> metric list option" where
  "eligible n grouped m =
     (case map_of grouped m of
        None \<Rightarrow> None
      | Some l \<Rightarrow> if length l = n then Some l else None)"

definition source :: "nat \<Rightarrow> (string \<times> metric list) list \<Rightarrow> string list \<Rightarrow> string
    \<Rightarrow> metric list option" where
  "source n grouped names k =
     (case (if k \<noteq> ''loss'' \<and> k @ suffix \<in> set names
            then eligible n grouped (k @ suffix) else None) of
        Some l \<Rightarrow> Some l
      | None \<Rightarrow> (if k \<in> set names then eligible n grouped k else None))"

definition key_metric ::
  "(string \<times> metric_fn) list \<Rightarrow> (string \<times> tensors_entry) list \<Rightarrow> string \<Rightarrow> string
    \<Rightarrow> metric option" where
  "key_metric fns tensors m k =
     (case map_of fns k of
        None \<Rightarrow> None
      | Some f \<Rightarrow> (case map_of tensors k of
                     Some (KwargsEntry a) \<Rightarrow> map_of (f a) m
                   | _ \<Rightarrow> None))"

definition best_tensors ::
  "Candidate list \<Rightarrow> tensor \<Rightarrow> (string \<times> nat) list option \<Rightarrow> (string \<times> tensors_entry) list" where
  "best_tensors cands best_index params =
     dict_set ''best_candidate_index'' (TensorEntry (Tile best_index (batch_size_of params)))
       (snd (collate_metric_fns_and_tensors cands))"

definition best_metric ::
  "Candidate list \<Rightarrow> tensor \<Rightarrow> (string \<times> nat) list option \<Rightarrow> string \<Rightarrow> metric option" where
  "best_metric cands best_index params k =
     (case call_best_eval_metrics (create_best_eval_metrics_tuple cands best_index EVAL params) of
        Inr (Some ops) \<Rightarrow> map_of ops k
      | _ \<Rightarrow> None)"

definition both_metrics :: Candidate where
  "both_metrics = example_candidate
     (metric_spec ''t0_dnn'' 0 [''accuracy'', ''accuracy/adanet/adanet_weighted_ensemble''])"

definition only_suffixed :: Candidate where
  "only_suffixed = example_candidate
     (metric_spec ''t0_dnn'' 0 [''accuracy/adanet/adanet_weighted_ensemble''])"

definition previous_and_new :: "Candidate list" where
  "previous_and_new =
     [example_candidate example_previous,
      example_candidate
        (metric_spec ''t1_dnn'' 1 [''accuracy'', ''accuracy/adanet/adanet_weighted_ensemble''])]"

definition eleven_candidates :: "Candidate list" where
  "eleven_candidates =
     map (\<lambda>k. example_candidate (metric_spec ''dnn'' k [''accuracy'']))
       [0, 1, 2, 3, 4, 5, 6, 7, 8, 9, 10]"

section \<open>Validation of the iteration record\<close>

lemma isinstance_int_iff:
  "isinstance_int v \<and> 0 \<le> int_value v \<longleftrightarrow> non_negative_integer v"
  by (cases v) auto

lemma non_empty_list_iff: "isinstance_list v \<and> truthy v \<longleftrightarrow> non_empty_list v"
proof (cases v)
  case (PyList xs)
  then show ?thesis by (cases xs) auto
qed auto

lemma isinstance_dict_iff: "isinstance_dict v \<longleftrightarrow> is_mapping v"
  by (cases v) auto

lemma Iteration_new_valid:
  assumes "valid_iteration_args num cands espec best_idx reports stp"
  shows "Iteration_new num cands espec best_idx summs over_fn reports stp =
    Inr \<lparr> number = num, candidates = cands, estimator_spec = espec,
          best_candidate_index = best_idx, summaries = summs, is_over_fn = over_fn,
          subnetwork_reports = reports, step = stp \<rparr>"
proof -
  from assms have n: "isinstance_int num" "\<not> int_value num < 0"
    using isinstance_int_iff [of num] by (auto simp: valid_iteration_args_def)
  from assms have c: "isinstance_list cands" "truthy cands"
    using non_empty_list_iff [of cands] by (auto simp: valid_iteration_args_def)
  from assms have r: "isinstance_dict reports"
    using isinstance_dict_iff [of reports] by (simp add: valid_iteration_args_def)
  from assms have p: "espec \<noteq> PyNone" "best_idx \<noteq> PyNone" "stp \<noteq> PyNone"
    by (auto simp: valid_iteration_args_def present_def)
  show ?thesis using n c r p by (simp add: Iteration_new_def)
qed

lemma Iteration_new_invalid:
  assumes "\<not> valid_iteration_args num cands espec best_idx reports stp"
  shows "\<exists>e. Iteration_new num cands espec best_idx summs over_fn reports stp = Inl e
    \<and> descriptive e"
proof -
  from assms have "\<not> isinstance_int num \<or> int_value num < 0 \<or> \<not> isinstance_list cands
      \<or> \<not> truthy cands \<or> espec = PyNone \<or> best_idx = PyNone
      \<or> \<not> isinstance_dict reports \<or> stp = PyNone"
    using isinstance_int_iff [of num] non_empty_list_iff [of cands]
      isinstance_dict_iff [of reports]
    by (auto simp: valid_iteration_args_def present_def)
  then show ?thesis
    by (auto simp: Iteration_new_def descriptive_def)
qed

text \<open>
  C9. Construction of an \<open>_Iteration\<close> is strictly validated: if the number is a
  non-negative integer (0 included), the candidates are a non-empty list, the estimator
  spec, the best candidate index and the step are present and the reports are a mapping,
  the constructor returns the record with all eight fields as given; in every other case
  it raises a \<open>ValueError\<close> with a non-empty message, so no partially valid instance
  exists.
\<close>

theorem Iteration_new_validated:
  "(valid_iteration_args num cands espec best_idx reports stp \<longrightarrow>
      Iteration_new num cands espec best_idx summs over_fn reports stp =
        Inr \<lparr> number = num, candidates = cands, estimator_spec = espec,
              best_candidate_index = best_idx, summaries = summs, is_over_fn = over_fn,
              subnetwork_reports = reports, step = stp \<rparr>)
   \<and> (\<not> valid_iteration_args num cands espec best_idx reports stp \<longrightarrow>
      (\<exists>e. Iteration_new num cands espec best_idx summs over_fn reports stp = Inl e
        \<and> descriptive e))"
  using Iteration_new_valid Iteration_new_invalid by blast

theorem Iteration_new_validated_witness:
  "valid_iteration_args (PyInt 0) (PyList [PyObject 1]) (PyObject 2) (PyInt 0) (PyDict [])
      (PyObject 3)
   \<and> Iteration_new (PyInt 0) (PyList [PyObject 1]) (PyObject 2) (PyInt 0) (PyList [])
        (PyObject 4) (PyDict []) (PyObject 3) =
      Inr \<lparr> number = PyInt 0, candidates = PyList [PyObject 1],
            estimator_spec = PyObject 2, best_candidate_index = PyInt 0,
            summaries = PyList [], is_over_fn = PyObject 4, subnetwork_reports = PyDict [],
            step = PyObject 3 \<rparr>
   \<and> \<not> valid_iteration_args (PyInt (- 1)) (PyList [PyObject 1]) (PyObject 2) (PyInt 0)
      (PyDict []) (PyObject 3)
   \<and> (\<exists>e. Iteration_new (PyInt (- 1)) (PyList [PyObject 1]) (PyObject 2) (PyInt 0)
        (PyList []) (PyObject 4) (PyDict []) (PyObject 3) = Inl e \<and> descriptive e)"
proof -
  have v: "valid_iteration_args (PyInt 0) (PyList [PyObject 1]) (PyObject 2) (PyInt 0)
      (PyDict []) (PyObject 3)"
    by (simp add: valid_iteration_args_def present_def)
  have n: "\<not> valid_iteration_args (PyInt (- 1)) (PyList [PyObject 1]) (PyObject 2) (PyInt 0)
      (PyDict []) (PyObject 3)"
    by (simp add: valid_iteration_args_def)
  show ?thesis
    using v n
      Iteration_new_validated [of "PyInt 0" "PyList [PyObject 1]" "PyObject 2" "PyInt 0"
        "PyDict []" "PyObject 3" "PyList []" "PyObject 4"]
      Iteration_new_validated [of "PyInt (- 1)" "PyList [PyObject 1]" "PyObject 2" "PyInt 0"
        "PyDict []" "PyObject 3" "PyList []" "PyObject 4"]
    by blast
qed


section \<open>Best candidate index\<close>

lemma argmin_scan_cases:
  "(argmin_scan bi bv i xs = bi \<and> (\<forall>x\<in>set xs. bv \<le> x))
   \<or> (\<exists>k<length xs. argmin_scan bi bv i xs = i + k \<and> xs ! k < bv
        \<and> (\<forall>j<length xs. xs ! k \<le> xs ! j) \<and> (\<forall>j<k. xs ! k < xs ! j))"
proof (induction xs arbitrary: bi bv i)
  case Nil
  then show ?case by simp
next
  case (Cons x xs)
  show ?case
  proof (cases "x < bv")
    case True
    from Cons.IH [of i x "Suc i"] show ?thesis
    proof
      assume a: "argmin_scan i x (Suc i) xs = i \<and> (\<forall>y\<in>set xs. x \<le> y)"
      have "0 < length (x # xs) \<and> argmin_scan bi bv i (x # xs) = i + 0 \<and> (x # xs) ! 0 < bv
        \<and> (\<forall>j<length (x # xs). (x # xs) ! 0 \<le> (x # xs) ! j) \<and> (\<forall>j<0. (x # xs) ! 0 < (x # xs) ! j)"
        using a True by (auto simp: nth_Cons')
      then show ?thesis by blast
    next
      assume "\<exists>k<length xs. argmin_scan i x (Suc i) xs = Suc i + k \<and> xs ! k < x
        \<and> (\<forall>j<length xs. xs ! k \<le> xs ! j) \<and> (\<forall>j<k. xs ! k < xs ! j)"
      then obtain k where k: "k < length xs" "argmin_scan i x (Suc i) xs = Suc i + k"
        "xs ! k < x" "\<forall>j<length xs. xs ! k \<le> xs ! j" "\<forall>j<k. xs ! k < xs ! j" by blast
      have "Suc k < length (x # xs) \<and> argmin_scan bi bv i (x # xs) = i + Suc k
        \<and> (x # xs) ! Suc k < bv
        \<and> (\<forall>j<length (x # xs). (x # xs) ! Suc k \<le> (x # xs) ! j)
        \<and> (\<forall>j<Suc k. (x # xs) ! Suc k < (x # xs) ! j)"
        using k True by (auto simp: nth_Cons' less_Suc_eq_0_disj)
      then show ?thesis by blast
    qed
  next
    case False
    from Cons.IH [of bi bv "Suc i"] show ?thesis
    proof
      assume "argmin_scan bi bv (Suc i) xs = bi \<and> (\<forall>y\<in>set xs. bv \<le> y)"
      then show ?thesis using False by auto
    next
      assume "\<exists>k<length xs. argmin_scan bi bv (Suc i) xs = Suc i + k \<and> xs ! k < bv
        \<and> (\<forall>j<length xs. xs ! k \<le> xs ! j) \<and> (\<forall>j<k. xs ! k < xs ! j)"
      then obtain k where k: "k < length xs" "argmin_scan bi bv (Suc i) xs = Suc i + k"
        "xs ! k < bv" "\<forall>j<length xs. xs ! k \<le> xs ! j" "\<forall>j<k. xs ! k < xs ! j" by blast
      have "Suc k < length (x # xs) \<and> argmin_scan bi bv i (x # xs) = i + Suc k
        \<and> (x # xs) ! Suc k < bv
        \<and> (\<forall>j<length (x # xs). (x # xs) ! Suc k \<le> (x # xs) ! j)
        \<and> (\<forall>j<Suc k. (x # xs) ! Suc k < (x # xs) ! j)"
        using k False by (auto simp: nth_Cons' less_Suc_eq_0_disj)
      then show ?thesis by blast
    qed
  qed
qed

lemma argmin_leftmost:
  assumes "xs \<noteq> []"
  shows "argmin xs < length xs \<and> (\<forall>j<length xs. xs ! argmin xs \<le> xs ! j)
    \<and> (\<forall>j<argmin xs. xs ! argmin xs < xs ! j)"
proof -
  from assms obtain y ys where xs: "xs = y # ys" by (cases xs) auto
  from argmin_scan_cases [of 0 y 1 ys] show ?thesis
  proof
    assume "argmin_scan 0 y 1 ys = 0 \<and> (\<forall>x\<in>set ys. y \<le> x)"
    then show ?thesis using xs by (auto simp: nth_Cons')
  next
    assume "\<exists>k<length ys. argmin_scan 0 y 1 ys = 1 + k \<and> ys ! k < y
        \<and> (\<forall>j<length ys. ys ! k \<le> ys ! j) \<and> (\<forall>j<k. ys ! k < ys ! j)"
    then obtain k where k: "k < length ys" "argmin_scan 0 y 1 ys = 1 + k" "ys ! k < y"
      "\<forall>j<length ys. ys ! k \<le> ys ! j" "\<forall>j<k. ys ! k < ys ! j" by blast
    then show ?thesis using xs by (auto simp: nth_Cons' less_Suc_eq_0_disj)
  qed
qed

text \<open>
  C1. For a candidate list of length \<open>n \<ge> 1\<close> and any values of the candidates' AdaNet
  losses, the index node built by \<open>_best_candidate_index\<close> evaluates to an index in
  \<open>[0, n)\<close> at which the loss is minimal and before which every loss is strictly larger
  (the leftmost minimum).
\<close>

theorem best_candidate_index_leftmost_minimum:
  assumes "cands \<noteq> []"
  shows "\<exists>i. eval_index v (best_candidate_index cands) = Some i \<and> i < length cands
    \<and> (\<forall>j<length cands. v (Candidate.adanet_loss (cands ! i)) \<le> v (Candidate.adanet_loss (cands ! j)))
    \<and> (\<forall>j<i. v (Candidate.adanet_loss (cands ! i)) < v (Candidate.adanet_loss (cands ! j)))"
proof (cases "length cands = 1")
  case True
  then have "eval_index v (best_candidate_index cands) = Some 0"
    by (simp add: best_candidate_index_def)
  moreover have "\<forall>j<length cands. j = 0" using True by simp
  ultimately show ?thesis using True by auto
next
  case False
  define xs where "xs = map v (map Candidate.adanet_loss cands)"
  have ne: "xs \<noteq> []" using assms by (simp add: xs_def)
  have len: "length xs = length cands" by (simp add: xs_def)
  have nth: "xs ! j = v (Candidate.adanet_loss (cands ! j))" if "j < length cands" for j
    using that by (simp add: xs_def)
  have i: "eval_index v (best_candidate_index cands) = Some (argmin xs)"
    using False by (simp add: best_candidate_index_def xs_def)
  from argmin_leftmost [OF ne] have a: "argmin xs < length cands"
    "\<And>j. j < length cands \<Longrightarrow> xs ! argmin xs \<le> xs ! j"
    "\<And>j. j < argmin xs \<Longrightarrow> xs ! argmin xs < xs ! j"
    using len by auto
  have b: "v (Candidate.adanet_loss (cands ! argmin xs)) \<le> v (Candidate.adanet_loss (cands ! j))"
    if "j < length cands" for j
    using a(2) [OF that] nth [OF that] nth [OF a(1)] by simp
  have c: "v (Candidate.adanet_loss (cands ! argmin xs)) < v (Candidate.adanet_loss (cands ! j))"
    if "j < argmin xs" for j
  proof -
    from that a(1) have "j < length cands" by simp
    then show ?thesis using a(3) [OF that] nth [of j] nth [OF a(1)] by simp
  qed
  show ?thesis using i a(1) b c by blast
qed


text \<open>The losses \<open>[0.5, 0.3, 0.3]\<close> give index 1.\<close>

theorem best_candidate_index_leftmost_minimum_witness:
  "three_candidates \<noteq> []
   \<and> eval_index example_losses (best_candidate_index three_candidates) = Some 1
   \<and> (\<exists>i. eval_index example_losses (best_candidate_index three_candidates) = Some i
        \<and> i < length three_candidates
        \<and> (\<forall>j<length three_candidates.
              example_losses (Candidate.adanet_loss (three_candidates ! i))
                \<le> example_losses (Candidate.adanet_loss (three_candidates ! j)))
        \<and> (\<forall>j<i. example_losses (Candidate.adanet_loss (three_candidates ! i))
                < example_losses (Candidate.adanet_loss (three_candidates ! j))))"
proof -
  have ne: "three_candidates \<noteq> []" by (simp add: three_candidates_def)
  have e: "eval_index example_losses (best_candidate_index three_candidates) = Some 1"
    by (simp add: three_candidates_def best_candidate_index_def example_candidate_def
        example_spec_def example_losses_def)
  show ?thesis
    using ne e best_candidate_index_leftmost_minimum [OF ne, of example_losses] by blast
qed

section \<open>The completion flag\<close>

lemma eval_bool_foldl:
  "eval_bool b (foldl (\<lambda>is_over candidate. LogicalAnd is_over (LogicalNot (is_training candidate))) acc cands)
    = (eval_bool b acc \<and> (\<forall>c\<in>set cands. \<not> eval_bool b (is_training c)))"
  by (induction cands arbitrary: acc) auto

lemma eval_is_over_condition:
  "eval_bool b (is_over_condition cands) = (\<forall>c\<in>set cands. \<not> eval_bool b (is_training c))"
  by (simp add: is_over_condition_def eval_bool_foldl)

lemma run_assign_is_over:
  "run_op b (assign_is_over cands is_over_var_template) s =
     (if \<forall>c\<in>set cands. \<not> eval_bool b (is_training c) then s\<lparr>is_over := True\<rparr> else s)"
  by (simp add: assign_is_over_def is_over_var_template_def eval_is_over_condition)

lemma run_passes_is_over:
  "is_over (run_passes (assign_is_over cands is_over_var_template) bs s) =
     (is_over s \<or> (\<exists>b\<in>set bs. \<forall>c\<in>set cands. \<not> eval_bool b (is_training c)))"
  by (induction bs arbitrary: s) (auto simp: run_assign_is_over)

lemma run_passes_append: "run_passes x (bs @ cs) s = run_passes x cs (run_passes x bs s)"
  by (induction bs arbitrary: s) auto

text \<open>
  C2. The flag starts false. One pass of \<open>_assign_is_over\<close> sets it to true if and only if
  no candidate is training in that pass, and otherwise leaves the whole state as it was.
  Over any sequence of passes with arbitrary \<open>is_training\<close> values the flag after more
  passes is the flag before or a pass in between in which no candidate was training: once
  true it stays true.
\<close>

theorem is_over_monotone:
  "is_over_var_initial = False
   \<and> run_op b (assign_is_over cands is_over_var_template) s =
       (if \<forall>c\<in>set cands. \<not> eval_bool b (is_training c) then s\<lparr>is_over := True\<rparr> else s)
   \<and> is_over (run_passes (assign_is_over cands is_over_var_template) (bs @ cs) s) =
       (is_over (run_passes (assign_is_over cands is_over_var_template) bs s)
        \<or> (\<exists>b\<in>set cs. \<forall>c\<in>set cands. \<not> eval_bool b (is_training c)))
   \<and> (is_over (run_passes (assign_is_over cands is_over_var_template) bs s) \<longrightarrow>
        is_over (run_passes (assign_is_over cands is_over_var_template) (bs @ cs) s))"
  by (simp add: is_over_var_initial_def run_assign_is_over run_passes_append run_passes_is_over)


theorem is_over_monotone_witness:
  "is_over_var_initial = False
   \<and> \<not> is_over (run_passes (assign_is_over three_candidates is_over_var_template)
        [all_training] initial_state)
   \<and> is_over (run_passes (assign_is_over three_candidates is_over_var_template)
        [all_training, all_done] initial_state)
   \<and> is_over (run_passes (assign_is_over three_candidates is_over_var_template)
        ([all_training, all_done] @ [all_training, all_training]) initial_state)"
proof -
  have a: "\<not> is_over (run_passes (assign_is_over three_candidates is_over_var_template)
        [all_training] initial_state)"
    by (simp add: run_assign_is_over three_candidates_def example_candidate_def
        example_spec_def all_training_def initial_state_def is_over_var_initial_def)
  have b: "is_over (run_passes (assign_is_over three_candidates is_over_var_template)
        [all_training, all_done] initial_state)"
    by (simp add: run_assign_is_over three_candidates_def example_candidate_def
        example_spec_def all_training_def all_done_def initial_state_def)
  show ?thesis
    using a b
      is_over_monotone [of all_training three_candidates initial_state
        "[all_training, all_done]" "[all_training, all_training]"]
    by blast
qed

section \<open>The fused train operation\<close>

lemma mset_insert_everywhere:
  "ys \<in> set (insert_everywhere x xs) \<Longrightarrow> mset ys = add_mset x (mset xs)"
  by (induction xs arbitrary: ys) auto

lemma mset_permutations: "p \<in> set (permutations xs) \<Longrightarrow> mset p = mset xs"
  by (induction xs arbitrary: p) (auto simp: mset_insert_everywhere)

lemma insert_everywhere_middle: "ys @ x # zs \<in> set (insert_everywhere x (ys @ zs))"
proof (induction ys)
  case Nil
  then show ?case by (cases zs) auto
next
  case (Cons y ys)
  then show ?case by auto
qed

lemma permutations_complete: "mset p = mset xs \<Longrightarrow> p \<in> set (permutations xs)"
proof (induction xs arbitrary: p)
  case Nil
  then show ?case by simp
next
  case (Cons x xs)
  then have "x \<in> set p" by (metis list.set_intros(1) set_mset_mset)
  then obtain ys zs where p: "p = ys @ x # zs" by (meson split_list)
  with Cons.prems have "mset (ys @ zs) = mset xs" by simp
  from Cons.IH [OF this] have "ys @ zs \<in> set (permutations xs)" .
  with p insert_everywhere_middle [of ys x zs] show ?case by auto
qed

text \<open>\<open>permutations\<close> lists every order of a list and nothing else.\<close>

lemma set_permutations: "set (permutations xs) = {p. mset p = mset xs}"
  using mset_permutations permutations_complete by blast

lemma run_ops_append: "run_ops b (xs @ ys) s = run_ops b ys (run_ops b xs s)"
  by (induction xs arbitrary: s) auto

lemma candidate_train_ops_member:
  "candidate_train_ops cands = Inr train_ops \<Longrightarrow>
   x \<in> set train_ops \<longleftrightarrow>
     (\<exists>c\<in>set cands. \<exists>sub ens. subnetwork_train_op (ensemble_spec c) = Some sub
        \<and> ensemble_train_op (ensemble_spec c) = Some ens
        \<and> (x = TrainOpSpec.train_op sub \<or> x = TrainOpSpec.train_op ens))"
proof (induction cands arbitrary: train_ops)
  case Nil
  then show ?case by simp
next
  case (Cons c cands)
  then show ?case
    by (auto split: option.splits sum.splits)
qed

lemma schedules_train_op:
  assumes "tr \<in> set (schedules (ControlDependencies deps (Group [x, y])))"
  shows "\<exists>d inc. tr = d @ inc \<and> mset d = mset deps \<and> (inc = [x, y] \<or> inc = [y, x])"
proof -
  from assms obtain d inc where "tr = d @ inc" "d \<in> set (permutations deps)"
    "inc \<in> set (permutations [x, y])" by auto
  then show ?thesis using mset_permutations [of d deps] by auto
qed


lemma permutations_self: "xs \<in> set (permutations xs)"
proof (induction xs)
  case Nil
  then show ?case by simp
next
  case (Cons x xs)
  have "x # xs \<in> set (insert_everywhere x xs)" by (cases xs) auto
  with Cons show ?case by auto
qed

text \<open>
  C3. In TRAIN mode the train operation is the group of the two step increments, created
  under the control dependencies on one list: the subnetwork and ensemble train
  operations of exactly the candidates that have a subnetwork train operation, followed
  by the completion-flag update. In every order in which the pass may run, all of these
  come first and the two increments last, and both steps advance by one over the state
  the dependencies left.
\<close>

theorem train_op_increments_steps_last:
  assumes "create_train_op cands TRAIN IterationStepVar is_over_var_template = Inr train"
  shows "\<exists>train_ops.
     candidate_train_ops cands = Inr train_ops
     \<and> (\<forall>x. x \<in> set train_ops \<longleftrightarrow>
          (\<exists>c\<in>set cands. \<exists>sub ens. subnetwork_train_op (ensemble_spec c) = Some sub
             \<and> ensemble_train_op (ensemble_spec c) = Some ens
             \<and> (x = TrainOpSpec.train_op sub \<or> x = TrainOpSpec.train_op ens)))
     \<and> train = ControlDependencies (train_ops @ [assign_is_over cands is_over_var_template])
                 (Group [AssignAdd GlobalStepVar 1, AssignAdd IterationStepVar 1])
     \<and> train_ops @ [assign_is_over cands is_over_var_template]
          @ [AssignAdd GlobalStepVar 1, AssignAdd IterationStepVar 1] \<in> set (schedules train)
     \<and> (\<forall>tr\<in>set (schedules train). \<exists>d inc.
          tr = d @ inc
          \<and> mset d = mset (train_ops @ [assign_is_over cands is_over_var_template])
          \<and> (inc = [AssignAdd GlobalStepVar 1, AssignAdd IterationStepVar 1]
              \<or> inc = [AssignAdd IterationStepVar 1, AssignAdd GlobalStepVar 1])
          \<and> global_step (run_ops b tr s) = global_step (run_ops b d s) + 1
          \<and> iteration_step (run_ops b tr s) = iteration_step (run_ops b d s) + 1)"
proof -
  from assms obtain train_ops where t: "candidate_train_ops cands = Inr train_ops"
    and tr: "train = ControlDependencies (train_ops @ [assign_is_over cands is_over_var_template])
                 (Group [AssignAdd GlobalStepVar 1, AssignAdd IterationStepVar 1])"
    by (auto simp: create_train_op_def split: sum.splits)
  let ?deps = "train_ops @ [assign_is_over cands is_over_var_template]"
  let ?g = "AssignAdd GlobalStepVar 1"
  let ?i = "AssignAdd IterationStepVar 1"
  have m: "\<forall>x. x \<in> set train_ops \<longleftrightarrow>
          (\<exists>c\<in>set cands. \<exists>sub ens. subnetwork_train_op (ensemble_spec c) = Some sub
             \<and> ensemble_train_op (ensemble_spec c) = Some ens
             \<and> (x = TrainOpSpec.train_op sub \<or> x = TrainOpSpec.train_op ens))"
    using candidate_train_ops_member [OF t] by blast
  have "?deps @ [?g, ?i] \<in> set (schedules (ControlDependencies ?deps (Group [?g, ?i])))"
    using permutations_self [of ?deps] by auto
  then have self: "train_ops @ [assign_is_over cands is_over_var_template] @ [?g, ?i]
      \<in> set (schedules train)"
    using tr by simp
  have all: "\<exists>d inc. x = d @ inc \<and> mset d = mset ?deps
          \<and> (inc = [?g, ?i] \<or> inc = [?i, ?g])
          \<and> global_step (run_ops b x s) = global_step (run_ops b d s) + 1
          \<and> iteration_step (run_ops b x s) = iteration_step (run_ops b d s) + 1"
    if "x \<in> set (schedules train)" for x
  proof -
    from that tr schedules_train_op [of x ?deps ?g ?i]
    obtain d inc where d: "x = d @ inc" "mset d = mset ?deps" "inc = [?g, ?i] \<or> inc = [?i, ?g]"
      by blast
    from d(3) have "global_step (run_ops b inc s') = global_step s' + 1
        \<and> iteration_step (run_ops b inc s') = iteration_step s' + 1" for s'
      by auto
    then have "global_step (run_ops b x s) = global_step (run_ops b d s) + 1
        \<and> iteration_step (run_ops b x s) = iteration_step (run_ops b d s) + 1"
      using d(1) by (simp add: run_ops_append)
    with d show ?thesis by blast
  qed
  show ?thesis using t m tr self all by blast
qed


text \<open>
  On the carryover candidate and one new candidate: the dependencies are the two train
  operations of the new candidate and the flag update; in the order "ensemble train op,
  flag update, subnetwork train op, iteration step, global step" the increments come last.
\<close>

theorem train_op_increments_steps_last_witness:
  "create_train_op carryover_and_new TRAIN IterationStepVar is_over_var_template =
     Inr (ControlDependencies
            [GraphOp 13, GraphOp 14, assign_is_over carryover_and_new is_over_var_template]
            (Group [AssignAdd GlobalStepVar 1, AssignAdd IterationStepVar 1]))
   \<and> [GraphOp 14, assign_is_over carryover_and_new is_over_var_template, GraphOp 13,
       AssignAdd IterationStepVar 1, AssignAdd GlobalStepVar 1]
      \<in> set (schedules (ControlDependencies
            [GraphOp 13, GraphOp 14, assign_is_over carryover_and_new is_over_var_template]
            (Group [AssignAdd GlobalStepVar 1, AssignAdd IterationStepVar 1])))
   \<and> (\<exists>d inc. [GraphOp 14, assign_is_over carryover_and_new is_over_var_template, GraphOp 13,
                AssignAdd IterationStepVar 1, AssignAdd GlobalStepVar 1] = d @ inc
          \<and> mset d = mset [GraphOp 13, GraphOp 14,
                            assign_is_over carryover_and_new is_over_var_template]
          \<and> global_step (run_ops all_done
               [GraphOp 14, assign_is_over carryover_and_new is_over_var_template, GraphOp 13,
                AssignAdd IterationStepVar 1, AssignAdd GlobalStepVar 1] initial_state) =
              global_step (run_ops all_done d initial_state) + 1
          \<and> iteration_step (run_ops all_done
               [GraphOp 14, assign_is_over carryover_and_new is_over_var_template, GraphOp 13,
                AssignAdd IterationStepVar 1, AssignAdd GlobalStepVar 1] initial_state) =
              iteration_step (run_ops all_done d initial_state) + 1)"
proof -
  let ?a = "assign_is_over carryover_and_new is_over_var_template"
  let ?train = "ControlDependencies [GraphOp 13, GraphOp 14, ?a]
            (Group [AssignAdd GlobalStepVar 1, AssignAdd IterationStepVar 1])"
  let ?tr = "[GraphOp 14, ?a, GraphOp 13, AssignAdd IterationStepVar 1, AssignAdd GlobalStepVar 1]"
  have t: "candidate_train_ops carryover_and_new = Inr [GraphOp 13, GraphOp 14]"
    by (simp add: carryover_and_new_def example_candidate_def frozen_spec_def example_spec_def)
  have c: "create_train_op carryover_and_new TRAIN IterationStepVar is_over_var_template =
      Inr ?train"
    by (simp add: create_train_op_def t)
  have m: "?tr \<in> set (schedules ?train)"
    by simp
  from train_op_increments_steps_last [OF c, of all_done initial_state]
  obtain train_ops where o: "candidate_train_ops carryover_and_new = Inr train_ops"
    and a: "\<forall>tr\<in>set (schedules ?train). \<exists>d inc. tr = d @ inc
          \<and> mset d = mset (train_ops @ [?a])
          \<and> (inc = [AssignAdd GlobalStepVar 1, AssignAdd IterationStepVar 1]
              \<or> inc = [AssignAdd IterationStepVar 1, AssignAdd GlobalStepVar 1])
          \<and> global_step (run_ops all_done tr initial_state) =
              global_step (run_ops all_done d initial_state) + 1
          \<and> iteration_step (run_ops all_done tr initial_state) =
              iteration_step (run_ops all_done d initial_state) + 1"
    by blast
  from o t have eq: "train_ops = [GraphOp 13, GraphOp 14]" by simp
  from a m have "\<exists>d inc. ?tr = d @ inc
          \<and> mset d = mset (train_ops @ [?a])
          \<and> (inc = [AssignAdd GlobalStepVar 1, AssignAdd IterationStepVar 1]
              \<or> inc = [AssignAdd IterationStepVar 1, AssignAdd GlobalStepVar 1])
          \<and> global_step (run_ops all_done ?tr initial_state) =
              global_step (run_ops all_done d initial_state) + 1
          \<and> iteration_step (run_ops all_done ?tr initial_state) =
              iteration_step (run_ops all_done d initial_state) + 1"
    by blast
  then have "\<exists>d inc. ?tr = d @ inc
          \<and> mset d = mset [GraphOp 13, GraphOp 14, ?a]
          \<and> global_step (run_ops all_done ?tr initial_state) =
              global_step (run_ops all_done d initial_state) + 1
          \<and> iteration_step (run_ops all_done ?tr initial_state) =
              iteration_step (run_ops all_done d initial_state) + 1"
    unfolding eq append.simps by blast
  with c m show ?thesis by blast
qed

section \<open>Building an iteration\<close>

lemma map_of_dict_set: "map_of (dict_set k v d) = (map_of d)(k \<mapsto> v)"
  by (induction d) (auto simp: fun_eq_iff)

lemma add_subnetwork_builder_apply:
  "add_subnetwork_builder builder n features md labels previous rebuilding params stp b
     (seen, cs, ss, rs) =
   (if Builder.name b \<in> set seen then Inl (collision_error (Builder.name b))
    else Inr (seen @ [Builder.name b],
           cs @ [new_candidate builder n features md labels previous rebuilding params stp b],
           ss @ [Some (new_summary n md rebuilding b)],
           (if md \<noteq> PREDICT then
              dict_set (Builder.name b)
                (builder_report b
                  (new_ensemble_spec builder n features md labels previous rebuilding params
                     stp b)) rs
            else rs)))"
  by (simp add: add_subnetwork_builder_def)

lemma for_each_builder_collision:
  assumes "(\<exists>b\<in>set bs. Builder.name b \<in> set seen) \<or> \<not> distinct (map Builder.name bs)"
  shows "\<exists>nm\<in>set (map Builder.name bs).
    for_each_builder
      (add_subnetwork_builder builder n features md labels previous rebuilding params stp)
      bs (seen, cs, ss, rs) = Inl (collision_error nm)"
  using assms
proof (induction bs arbitrary: seen cs ss rs)
  case Nil
  then show ?case by simp
next
  case (Cons b bs)
  show ?case
  proof (cases "Builder.name b \<in> set seen")
    case True
    then show ?thesis by (simp add: add_subnetwork_builder_apply)
  next
    case False
    with Cons.prems
    have "(\<exists>b'\<in>set bs. Builder.name b' \<in> set (seen @ [Builder.name b]))
        \<or> \<not> distinct (map Builder.name bs)"
      by auto
    from Cons.IH [OF this] False show ?thesis
      by (simp add: add_subnetwork_builder_apply)
  qed
qed

lemma for_each_builder_success:
  assumes "for_each_builder
      (add_subnetwork_builder builder n features md labels previous rebuilding params stp)
      bs (seen, cs, ss, rs) = Inr (seen', cs', ss', rs')"
  shows "distinct (map Builder.name bs) \<and> (\<forall>b\<in>set bs. Builder.name b \<notin> set seen)
    \<and> seen' = seen @ map Builder.name bs
    \<and> cs' = cs @ map (new_candidate builder n features md labels previous rebuilding params stp) bs
    \<and> ss' = ss @ map (\<lambda>b. Some (new_summary n md rebuilding b)) bs
    \<and> (md = PREDICT \<longrightarrow> rs' = rs)
    \<and> (md \<noteq> PREDICT \<longrightarrow>
         (\<forall>b\<in>set bs. map_of rs' (Builder.name b) =
            Some (builder_report b
              (new_ensemble_spec builder n features md labels previous rebuilding params stp b)))
         \<and> (\<forall>k. k \<notin> Builder.name ` set bs \<longrightarrow> map_of rs' k = map_of rs k))"
  using assms
proof (induction bs arbitrary: seen cs ss rs)
  case Nil
  then show ?case by simp
next
  case (Cons b bs)
  from Cons.prems have nb: "Builder.name b \<notin> set seen"
    by (auto simp: add_subnetwork_builder_apply split: if_splits)
  let ?rs = "if md \<noteq> PREDICT then
      dict_set (Builder.name b)
        (builder_report b
          (new_ensemble_spec builder n features md labels previous rebuilding params stp b)) rs
      else rs"
  from Cons.prems nb have rest: "for_each_builder
      (add_subnetwork_builder builder n features md labels previous rebuilding params stp) bs
      (seen @ [Builder.name b],
       cs @ [new_candidate builder n features md labels previous rebuilding params stp b],
       ss @ [Some (new_summary n md rebuilding b)], ?rs) = Inr (seen', cs', ss', rs')"
    by (simp add: add_subnetwork_builder_apply)
  note ih = Cons.IH [OF rest]
  show ?case
  proof (cases "md = PREDICT")
    case True
    with ih nb show ?thesis by auto
  next
    case False
    from ih nb have d: "Builder.name b \<notin> Builder.name ` set bs" by auto
    from ih False have k: "\<forall>k. k \<notin> Builder.name ` set bs \<longrightarrow> map_of rs' k = map_of ?rs k"
      by simp
    from k d False have here: "map_of rs' (Builder.name b) =
        Some (builder_report b
          (new_ensemble_spec builder n features md labels previous rebuilding params stp b))"
      by (simp add: map_of_dict_set)
    from k False have other: "\<forall>k. k \<notin> Builder.name ` set (b # bs) \<longrightarrow> map_of rs' k = map_of rs k"
      by (simp add: map_of_dict_set)
    from ih nb False here other show ?thesis by auto
  qed
qed

lemma assemble_iteration_Inr:
  assumes "assemble_iteration n md params stp (seen, cs, ss, rs) = Inr it"
  shows "candidates it = cs \<and> subnetwork_reports it = rs \<and> summaries it = ss
    \<and> number it = n \<and> 0 \<le> n
    \<and> Iteration.best_candidate_index it = best_candidate_index cs
    \<and> mode (estimator_spec it) = md
    \<and> best_predictions cs (best_candidate_index cs) =
        Inr (EstimatorSpec.predictions (estimator_spec it))
    \<and> EstimatorSpec.loss (estimator_spec it) = best_loss cs (best_candidate_index cs) md
    \<and> best_export_outputs cs (best_candidate_index cs) md
        (EstimatorSpec.predictions (estimator_spec it)) =
        Inr (EstimatorSpec.export_outputs (estimator_spec it))
    \<and> call_best_eval_metrics
        (create_best_eval_metrics_tuple cs (best_candidate_index cs) md params) =
        Inr (eval_metric_ops (estimator_spec it))
    \<and> create_train_op cs md IterationStepVar is_over_var_template =
        Inr (EstimatorSpec.train_op (estimator_spec it))"
  using assms
  by (auto simp: assemble_iteration_def Let_def Iteration_new_def
      split: sum.splits prod.splits if_splits)

lemma build_iteration_Inr:
  assumes "build_iteration builder n bs features md labels psumm previous rebuilding params = Inr it"
  shows "bs \<noteq> [] \<and> (\<exists>seen.
    for_each_builder
      (add_subnetwork_builder builder n features md labels previous rebuilding params
         (ReadVar IterationStepVar))
      bs (previous_best builder md (ReadVar IterationStepVar) psumm previous) =
      Inr (seen, candidates it, summaries it, subnetwork_reports it)
    \<and> assemble_iteration n md params (ReadVar IterationStepVar)
        (seen, candidates it, summaries it, subnetwork_reports it) = Inr it)"
proof -
  from assms have ne: "bs \<noteq> []" by (auto simp: build_iteration_def split: if_splits)
  with assms obtain st where st: "for_each_builder
      (add_subnetwork_builder builder n features md labels previous rebuilding params
         (ReadVar IterationStepVar))
      bs (previous_best builder md (ReadVar IterationStepVar) psumm previous) = Inr st"
    and a: "assemble_iteration n md params (ReadVar IterationStepVar) st = Inr it"
    by (auto simp: build_iteration_def Let_def split: sum.splits)
  obtain seen cs ss rs where s: "st = (seen, cs, ss, rs)" by (cases st) auto
  from assemble_iteration_Inr [OF a [unfolded s]] have "candidates it = cs"
    "subnetwork_reports it = rs" "summaries it = ss" by auto
  with st a s ne show ?thesis by auto
qed


lemmas example_defs = example_builder_def example_previous_def metric_spec_def
  example_metric_fn_def example_spec_def example_candidate_def dnn_def linear_def frozen_spec_def

lemmas build_defs = build_iteration_def previous_best_def add_subnetwork_builder_apply
  new_candidate_def new_ensemble_spec_def new_summary_def new_ensemble_name_def
  assemble_iteration_def best_candidate_index_def best_predictions_def best_loss_def
  best_export_outputs_def create_train_op_def call_best_eval_metrics_def
  create_best_eval_metrics_tuple_def Iteration_new_def str_int_def str_nat.simps
  digit_char_def sorted_keys_def group_export_output_def append_scores_def
  append_classes_def stack_export_output_def Let_def

lemma ex_train: "\<exists>it. build_iteration example_builder 1 [dnn] PyNone TRAIN PyNone None
    (Some example_previous) False None = Inr it"
  by (simp add: build_defs example_defs)

lemma ex_predict: "\<exists>it. build_iteration example_builder 1 [dnn] PyNone PREDICT PyNone None
    (Some example_previous) False None = Inr it"
  by (simp add: build_defs example_defs)

lemma ex_eval: "\<exists>it. build_iteration example_builder 1 [dnn] PyNone EVAL PyNone None
    (Some example_previous) False None = Inr it"
  by (simp add: build_defs example_defs best_eval_metrics_fn_def group_metric_ops_def
     collate_metric_fns_and_tensors_def candidate_key_def flatten_dict_def append_metric_op_def
     best_candidate_metric_def metrics_mean_def suffix_def endswith_def batch_size_of_def)


lemma previous_best_seen:
  "\<exists>cs ss rs. previous_best builder md stp psumm previous =
     ((case previous of None \<Rightarrow> [] | Some p \<Rightarrow> [EnsembleSpec.name p]), cs, ss, rs)"
  by (simp add: previous_best_def split: option.splits)

text \<open>
  C8. If the name of the previous best ensemble equals the name of one of the new
  subnetwork builders, or two subnetwork builders have the same name, \<open>build_iteration\<close>
  does not return an iteration: it raises the \<open>ValueError\<close> "Two ensembles have the same
  name" for one of the builders' names.
\<close>

theorem build_iteration_name_collision:
  assumes "(\<exists>p. previous = Some p \<and> EnsembleSpec.name p \<in> set (map Builder.name bs))
    \<or> \<not> distinct (map Builder.name bs)"
  shows "\<exists>nm\<in>set (map Builder.name bs).
    build_iteration builder n bs features md labels psumm previous rebuilding params =
      Inl (collision_error nm)"
proof -
  from assms have ne: "bs \<noteq> []" by auto
  obtain cs ss rs where pb: "previous_best builder md (ReadVar IterationStepVar) psumm previous =
     ((case previous of None \<Rightarrow> [] | Some p \<Rightarrow> [EnsembleSpec.name p]), cs, ss, rs)"
    using previous_best_seen by blast
  let ?seen = "case previous of None \<Rightarrow> [] | Some p \<Rightarrow> [EnsembleSpec.name p]"
  from assms have "(\<exists>b\<in>set bs. Builder.name b \<in> set ?seen) \<or> \<not> distinct (map Builder.name bs)"
    by auto
  from for_each_builder_collision [OF this]
  obtain nm where nm: "nm \<in> set (map Builder.name bs)"
    "for_each_builder
      (add_subnetwork_builder builder n features md labels previous rebuilding params
        (ReadVar IterationStepVar))
      bs (?seen, cs, ss, rs) = Inl (collision_error nm)"
    by blast
  from nm(2) ne pb
  have "build_iteration builder n bs features md labels psumm previous rebuilding params =
      Inl (collision_error nm)"
    by (simp add: build_iteration_def)
  with nm(1) show ?thesis by blast
qed

theorem build_iteration_name_collision_witness:
  "(\<exists>p. Some (frozen_spec ''linear'' 0) = Some p
        \<and> EnsembleSpec.name p \<in> set (map Builder.name [linear]))
   \<and> build_iteration example_builder 1 [linear] PyNone TRAIN PyNone None
        (Some (frozen_spec ''linear'' 0)) False None =
      Inl (ValueError (''Two ensembles have the same name '' @ [CHR 0x27] @ ''linear''
             @ [CHR 0x27]))
   \<and> \<not> distinct (map Builder.name [dnn, linear, dnn])
   \<and> build_iteration example_builder 1 [dnn, linear, dnn] PyNone TRAIN PyNone None None False
        None =
      Inl (ValueError (''Two ensembles have the same name '' @ [CHR 0x27] @ ''dnn''
             @ [CHR 0x27]))"
proof -
  have h1: "\<exists>p. Some (frozen_spec ''linear'' 0) = Some p
        \<and> EnsembleSpec.name p \<in> set (map Builder.name [linear])"
    by (simp add: frozen_spec_def example_spec_def linear_def)
  have h2: "\<not> distinct (map Builder.name [dnn, linear, dnn])"
    by (simp add: dnn_def linear_def)
  from build_iteration_name_collision [of "Some (frozen_spec ''linear'' 0)" "[linear]"
      example_builder 1 PyNone TRAIN PyNone None False None] h1
  have c1: "build_iteration example_builder 1 [linear] PyNone TRAIN PyNone None
        (Some (frozen_spec ''linear'' 0)) False None = Inl (collision_error ''linear'')"
    by (simp add: linear_def)
  from build_iteration_name_collision [of None "[dnn, linear, dnn]"
      example_builder 1 PyNone TRAIN PyNone None False None] h2
  obtain nm where nm: "nm \<in> set (map Builder.name [dnn, linear, dnn])"
    "build_iteration example_builder 1 [dnn, linear, dnn] PyNone TRAIN PyNone None None False
        None = Inl (collision_error nm)"
    by blast
  have "build_iteration example_builder 1 [dnn, linear, dnn] PyNone TRAIN PyNone None None False
        None = Inl (collision_error ''dnn'')"
    by (simp add: build_iteration_def previous_best_def add_subnetwork_builder_apply
        dnn_def linear_def)
  with h1 h2 c1 show ?thesis by (simp add: collision_error_def)
qed

lemma map_of_add_metrics:
  "map_of (foldl (\<lambda>m metric_name. case map_of ms metric_name of
                     None \<Rightarrow> m | Some metric \<Rightarrow> dict_set metric_name metric m) base ks) x =
     (if x \<in> set ks then (case map_of ms x of Some v \<Rightarrow> Some v | None \<Rightarrow> map_of base x)
      else map_of base x)"
  by (induction ks arbitrary: base) (auto simp: map_of_dict_set split: option.splits)

lemma set_sorted_keys: "set (sorted_keys d) = fst ` set d"
  by (simp add: sorted_keys_def)

lemma builder_report_adanet_loss:
  "map_of (metrics (builder_report b spec)) ''adanet_loss'' =
     Some (metrics_mean (EnsembleSpec.adanet_loss spec))"
  by (simp add: builder_report_def Let_def map_of_dict_set)

lemma builder_report_metrics:
  assumes "m \<noteq> ''adanet_loss''"
  shows "map_of (metrics (builder_report b spec)) m =
     (case map_of (metrics_of (eval_metrics spec)) m of
        Some v \<Rightarrow> Some v
      | None \<Rightarrow> (case build_subnetwork_report b of
                  None \<Rightarrow> None | Some r \<Rightarrow> map_of (metrics r) m))"
proof -
  have "map_of (metrics_of (eval_metrics spec)) m = None"
    if "m \<notin> fst ` set (metrics_of (eval_metrics spec))"
    using that by (simp add: map_of_eq_None_iff)
  then show ?thesis
    using assms
    by (auto simp: builder_report_def Let_def map_of_dict_set map_of_add_metrics
        set_sorted_keys split: option.splits)
qed

lemma previous_ensemble_report_metrics:
  "hparams (previous_ensemble_report p) = [] \<and> attributes (previous_ensemble_report p) = []
   \<and> map_of (metrics (previous_ensemble_report p)) ''adanet_loss'' =
       Some (metrics_mean (EnsembleSpec.adanet_loss p))
   \<and> (\<forall>m. m \<noteq> ''adanet_loss'' \<longrightarrow>
        map_of (metrics (previous_ensemble_report p)) m = map_of (metrics_of (eval_metrics p)) m)"
  by (simp add: previous_ensemble_report_def map_of_dict_set)

lemma build_iteration_reports:
  assumes "build_iteration builder n bs features md labels psumm previous rebuilding params = Inr it"
  shows "(md = PREDICT \<longrightarrow> subnetwork_reports it = [])
    \<and> (md \<noteq> PREDICT \<longrightarrow>
         (\<forall>b\<in>set bs. map_of (subnetwork_reports it) (Builder.name b) =
            Some (builder_report b
              (new_ensemble_spec builder n features md labels previous rebuilding params
                 (ReadVar IterationStepVar) b)))
         \<and> (\<forall>k. k \<notin> Builder.name ` set bs \<longrightarrow>
               map_of (subnetwork_reports it) k =
                 (case previous of
                    None \<Rightarrow> None
                  | Some p \<Rightarrow> if md = EVAL \<and> k = ''previous_ensemble''
                              then Some (previous_ensemble_report p) else None)))"
proof -
  from build_iteration_Inr [OF assms] obtain seen where
    l: "for_each_builder
      (add_subnetwork_builder builder n features md labels previous rebuilding params
         (ReadVar IterationStepVar))
      bs (previous_best builder md (ReadVar IterationStepVar) psumm previous) =
      Inr (seen, candidates it, summaries it, subnetwork_reports it)"
    by blast
  obtain seen0 cs0 ss0 rs0 where
    pb: "previous_best builder md (ReadVar IterationStepVar) psumm previous = (seen0, cs0, ss0, rs0)"
    by (cases "previous_best builder md (ReadVar IterationStepVar) psumm previous") auto
  then have rs0: "rs0 = (case previous of None \<Rightarrow> []
      | Some p \<Rightarrow> if md = EVAL then [(''previous_ensemble'', previous_ensemble_report p)] else [])"
    by (auto simp: previous_best_def split: option.splits)
  have m0: "map_of rs0 k = (case previous of None \<Rightarrow> None
      | Some p \<Rightarrow> if md = EVAL \<and> k = ''previous_ensemble''
                  then Some (previous_ensemble_report p) else None)" for k
    by (simp add: rs0 split: option.splits)
  have p0: "md = PREDICT \<Longrightarrow> rs0 = []"
    by (simp add: rs0 split: option.splits)
  note s = for_each_builder_success [OF l [unfolded pb]]
  from s p0 have a: "md = PREDICT \<longrightarrow> subnetwork_reports it = []" by auto
  from s have b: "md \<noteq> PREDICT \<longrightarrow>
      (\<forall>b\<in>set bs. map_of (subnetwork_reports it) (Builder.name b) =
            Some (builder_report b
              (new_ensemble_spec builder n features md labels previous rebuilding params
                 (ReadVar IterationStepVar) b)))" by blast
  from s have "md \<noteq> PREDICT \<longrightarrow>
      (\<forall>k. k \<notin> Builder.name ` set bs \<longrightarrow> map_of (subnetwork_reports it) k = map_of rs0 k)"
    by blast
  with m0 have c: "md \<noteq> PREDICT \<longrightarrow> (\<forall>k. k \<notin> Builder.name ` set bs \<longrightarrow>
               map_of (subnetwork_reports it) k =
                 (case previous of
                    None \<Rightarrow> None
                  | Some p \<Rightarrow> if md = EVAL \<and> k = ''previous_ensemble''
                              then Some (previous_ensemble_report p) else None))"
    by simp
  from a b c show ?thesis by blast
qed

lemma build_iteration_candidates:
  assumes "build_iteration builder n bs features md labels psumm previous rebuilding params = Inr it"
  shows "candidates it =
     (case previous of None \<Rightarrow> []
      | Some p \<Rightarrow> [build_candidate builder p (md = TRAIN) (ReadVar IterationStepVar) psumm True])
     @ map (new_candidate builder n features md labels previous rebuilding params
              (ReadVar IterationStepVar)) bs"
proof -
  from build_iteration_Inr [OF assms] obtain seen where
    l: "for_each_builder
      (add_subnetwork_builder builder n features md labels previous rebuilding params
         (ReadVar IterationStepVar))
      bs (previous_best builder md (ReadVar IterationStepVar) psumm previous) =
      Inr (seen, candidates it, summaries it, subnetwork_reports it)"
    by blast
  obtain seen0 cs0 ss0 rs0 where
    pb: "previous_best builder md (ReadVar IterationStepVar) psumm previous = (seen0, cs0, ss0, rs0)"
    by (cases "previous_best builder md (ReadVar IterationStepVar) psumm previous") auto
  then have cs0: "cs0 = (case previous of None \<Rightarrow> []
      | Some p \<Rightarrow> [build_candidate builder p (md = TRAIN) (ReadVar IterationStepVar) psumm True])"
    by (auto simp: previous_best_def split: option.splits)
  from for_each_builder_success [OF l [unfolded pb]] cs0 show ?thesis by simp
qed

lemmas eval_defs = best_eval_metrics_fn_def group_metric_ops_def
  collate_metric_fns_and_tensors_def candidate_key_def flatten_dict_def append_metric_op_def
  best_candidate_metric_def metrics_mean_def suffix_def endswith_def batch_size_of_def

text \<open>
  C4. Whenever \<open>build_iteration\<close> returns an iteration: in PREDICT mode the loss and the
  eval metric ops of its estimator spec are \<open>None\<close> and the train op is \<open>tf.no_op()\<close>,
  which changes nothing when run; in TRAIN mode the export outputs are \<open>None\<close>; in EVAL
  mode the export outputs are \<open>None\<close>, there is a report under every builder's name and,
  with a previous ensemble, under \<open>"previous_ensemble"\<close>, and every report has an
  \<open>"adanet_loss"\<close> metric.
\<close>

theorem outputs_gated_by_mode:
  assumes "build_iteration builder n bs features md labels psumm previous rebuilding params = Inr it"
  shows "(md = PREDICT \<longrightarrow>
       EstimatorSpec.loss (estimator_spec it) = None
       \<and> eval_metric_ops (estimator_spec it) = None
       \<and> EstimatorSpec.train_op (estimator_spec it) = NoOp
       \<and> run_op b (EstimatorSpec.train_op (estimator_spec it)) s = s)
   \<and> (md = TRAIN \<longrightarrow> EstimatorSpec.export_outputs (estimator_spec it) = None)
   \<and> (md = EVAL \<longrightarrow>
       EstimatorSpec.export_outputs (estimator_spec it) = None
       \<and> (\<forall>x\<in>set bs. \<exists>r. map_of (subnetwork_reports it) (Builder.name x) = Some r)
       \<and> (previous \<noteq> None \<longrightarrow> (\<exists>r. map_of (subnetwork_reports it) ''previous_ensemble'' = Some r))
       \<and> (\<forall>k r. map_of (subnetwork_reports it) k = Some r \<longrightarrow>
             (\<exists>m. map_of (metrics r) ''adanet_loss'' = Some m)))"
proof -
  from build_iteration_Inr [OF assms] obtain seen where
    a: "assemble_iteration n md params (ReadVar IterationStepVar)
        (seen, candidates it, summaries it, subnetwork_reports it) = Inr it"
    by blast
  note f = assemble_iteration_Inr [OF a]
  note r = build_iteration_reports [OF assms]
  have p: "md = PREDICT \<longrightarrow>
       EstimatorSpec.loss (estimator_spec it) = None
       \<and> eval_metric_ops (estimator_spec it) = None
       \<and> EstimatorSpec.train_op (estimator_spec it) = NoOp
       \<and> run_op b (EstimatorSpec.train_op (estimator_spec it)) s = s"
    using f
    by (auto simp: best_loss_def create_train_op_def create_best_eval_metrics_tuple_def
        call_best_eval_metrics_def)
  have t: "md \<noteq> PREDICT \<longrightarrow> EstimatorSpec.export_outputs (estimator_spec it) = None"
    using f by (auto simp: best_export_outputs_def)
  have e1: "md = EVAL \<longrightarrow> (\<forall>x\<in>set bs. \<exists>r. map_of (subnetwork_reports it) (Builder.name x) = Some r)"
    using r by auto
  have e3: "\<exists>m. map_of (metrics r') ''adanet_loss'' = Some m"
    if "md = EVAL" "map_of (subnetwork_reports it) k = Some r'" for k r'
  proof (cases "k \<in> Builder.name ` set bs")
    case True
    then obtain x where "x \<in> set bs" "k = Builder.name x" by blast
    with r that have "r' = builder_report x
        (new_ensemble_spec builder n features md labels previous rebuilding params
           (ReadVar IterationStepVar) x)" by auto
    then show ?thesis by (simp add: builder_report_adanet_loss)
  next
    case False
    with r that have "\<exists>p. r' = previous_ensemble_report p"
      by (auto split: option.splits if_splits)
    then show ?thesis using previous_ensemble_report_metrics by auto
  qed
  have e2: "md = EVAL \<longrightarrow> previous \<noteq> None \<longrightarrow>
      (\<exists>r. map_of (subnetwork_reports it) ''previous_ensemble'' = Some r)"
  proof (cases "''previous_ensemble'' \<in> Builder.name ` set bs")
    case True
    with e1 show ?thesis by auto
  next
    case False
    with r show ?thesis by (auto split: option.splits)
  qed
  from p t e1 e2 e3 show ?thesis by blast
qed


theorem outputs_gated_by_mode_witness:
  "(\<exists>it. build_iteration example_builder 1 [dnn] PyNone PREDICT PyNone None
            (Some example_previous) False None = Inr it
        \<and> EstimatorSpec.loss (estimator_spec it) = None
        \<and> eval_metric_ops (estimator_spec it) = None
        \<and> EstimatorSpec.train_op (estimator_spec it) = NoOp)
   \<and> (\<exists>it. build_iteration example_builder 1 [dnn] PyNone TRAIN PyNone None
            (Some example_previous) False None = Inr it
        \<and> EstimatorSpec.export_outputs (estimator_spec it) = None)
   \<and> (\<exists>it r m. build_iteration example_builder 1 [dnn] PyNone EVAL PyNone None
            (Some example_previous) False None = Inr it
        \<and> EstimatorSpec.export_outputs (estimator_spec it) = None
        \<and> map_of (subnetwork_reports it) ''dnn'' = Some r
        \<and> map_of (metrics r) ''adanet_loss'' = Some m)"
proof -
  from ex_predict obtain it1 where
    b1: "build_iteration example_builder 1 [dnn] PyNone PREDICT PyNone None
            (Some example_previous) False None = Inr it1" by blast
  from outputs_gated_by_mode [OF b1, of all_done initial_state]
  have p: "EstimatorSpec.loss (estimator_spec it1) = None
        \<and> eval_metric_ops (estimator_spec it1) = None
        \<and> EstimatorSpec.train_op (estimator_spec it1) = NoOp" by simp
  from ex_train obtain it2 where
    b2: "build_iteration example_builder 1 [dnn] PyNone TRAIN PyNone None
            (Some example_previous) False None = Inr it2" by blast
  from outputs_gated_by_mode [OF b2, of all_done initial_state]
  have t: "EstimatorSpec.export_outputs (estimator_spec it2) = None" by simp
  from ex_eval obtain it3 where
    b3: "build_iteration example_builder 1 [dnn] PyNone EVAL PyNone None
            (Some example_previous) False None = Inr it3" by blast
  note e = outputs_gated_by_mode [OF b3, of all_done initial_state]
  from e have e0: "EstimatorSpec.export_outputs (estimator_spec it3) = None" by simp
  from e obtain r where r: "map_of (subnetwork_reports it3) ''dnn'' = Some r"
    by (auto simp: dnn_def)
  from e r obtain m where m: "map_of (metrics r) ''adanet_loss'' = Some m" by blast
  from b1 p b2 t b3 e0 r m show ?thesis by blast
qed

text \<open>
  C7. If the built iteration has exactly one candidate, its best candidate index is the
  constant 0, and the predictions, the loss (outside PREDICT mode) and the export outputs
  (in PREDICT mode) of its estimator spec are that candidate's own values, with no
  \<open>tf.stack\<close> or indexing around them.
\<close>

theorem single_candidate_values_unchanged:
  assumes "build_iteration builder n bs features md labels psumm previous rebuilding params = Inr it"
    and "candidates it = [c]"
  shows "Iteration.best_candidate_index it = Constant 0
    \<and> eval_index v (Iteration.best_candidate_index it) = Some 0
    \<and> EstimatorSpec.predictions (estimator_spec it) = EnsembleSpec.predictions (ensemble_spec c)
    \<and> (md \<noteq> PREDICT \<longrightarrow>
         EstimatorSpec.loss (estimator_spec it) = Some (EnsembleSpec.loss (ensemble_spec c)))
    \<and> (md = PREDICT \<longrightarrow>
         EstimatorSpec.export_outputs (estimator_spec it) =
           Some (EnsembleSpec.export_outputs (ensemble_spec c)))"
proof -
  from build_iteration_Inr [OF assms(1)] obtain seen where
    a: "assemble_iteration n md params (ReadVar IterationStepVar)
        (seen, candidates it, summaries it, subnetwork_reports it) = Inr it"
    by blast
  note f = assemble_iteration_Inr [OF a, unfolded assms(2)]
  from f have i: "Iteration.best_candidate_index it = Constant 0"
    by (simp add: best_candidate_index_def)
  from f have p: "EstimatorSpec.predictions (estimator_spec it) =
      EnsembleSpec.predictions (ensemble_spec c)"
    by (simp add: best_predictions_def)
  from f have l: "md \<noteq> PREDICT \<longrightarrow>
      EstimatorSpec.loss (estimator_spec it) = Some (EnsembleSpec.loss (ensemble_spec c))"
    by (simp add: best_loss_def)
  from f have e: "md = PREDICT \<longrightarrow>
         EstimatorSpec.export_outputs (estimator_spec it) =
           Some (EnsembleSpec.export_outputs (ensemble_spec c))"
    by (auto simp: best_export_outputs_def)
  from i p l e show ?thesis by simp
qed

theorem single_candidate_values_unchanged_witness:
  "(\<exists>it c. build_iteration example_builder 1 [dnn] PyNone TRAIN PyNone None None False None
              = Inr it
        \<and> candidates it = [c]
        \<and> Iteration.best_candidate_index it = Constant 0
        \<and> EstimatorSpec.predictions (estimator_spec it) =
            EnsembleSpec.predictions (ensemble_spec c)
        \<and> EstimatorSpec.loss (estimator_spec it) = Some (EnsembleSpec.loss (ensemble_spec c)))
   \<and> (\<exists>it c. build_iteration example_builder 1 [dnn] PyNone PREDICT PyNone None None False None
              = Inr it
        \<and> candidates it = [c]
        \<and> EstimatorSpec.export_outputs (estimator_spec it) =
            Some (EnsembleSpec.export_outputs (ensemble_spec c)))"
proof -
  have "\<exists>it c. build_iteration example_builder 1 [dnn] PyNone TRAIN PyNone None None False None
      = Inr it \<and> candidates it = [c]"
    by (simp add: build_defs example_defs)
  then obtain it1 c1 where
    b1: "build_iteration example_builder 1 [dnn] PyNone TRAIN PyNone None None False None
      = Inr it1" and c1: "candidates it1 = [c1]" by blast
  note t = single_candidate_values_unchanged [OF b1 c1, of example_losses]
  have "\<exists>it c. build_iteration example_builder 1 [dnn] PyNone PREDICT PyNone None None False None
      = Inr it \<and> candidates it = [c]"
    by (simp add: build_defs example_defs)
  then obtain it2 c2 where
    b2: "build_iteration example_builder 1 [dnn] PyNone PREDICT PyNone None None False None
      = Inr it2" and c2: "candidates it2 = [c2]" by blast
  note p = single_candidate_values_unchanged [OF b2 c2, of example_losses]
  from b1 c1 t b2 c2 p show ?thesis by blast
qed


section \<open>Subnetwork reports\<close>

text \<open>
  C6. The property: for every candidate, the carryover previous-best candidate included,
  a subnetwork report is generated whenever the mode is not PREDICT, carrying the
  candidate's metrics and the \<open>"adanet_loss"\<close> mean; the docstring of \<open>_Iteration\<close>
  (lines 63-64) says the same of \<open>subnetwork_reports\<close>: "one per candidate". The code
  does not do this. The block for the previous ensemble generates its report under
  \<open>mode == EVAL\<close> (line 228), where the loop over the builders, under the same comment
  "Generate subnetwork reports", uses \<open>mode != PREDICT\<close> (line 271). In TRAIN mode with
  the previous ensemble \<open>t0_linear\<close> and one builder \<open>dnn\<close> the iteration has the two
  candidates \<open>t0_linear\<close> and \<open>t1_dnn\<close> and the single report \<open>dnn\<close>: the carryover
  candidate has no report.
\<close>

theorem carryover_report_counterexample:
  "report_keys (build_iteration example_builder 1 [dnn] PyNone TRAIN PyNone None
      (Some example_previous) False None) = Inr [''dnn'']
   \<and> candidate_names (build_iteration example_builder 1 [dnn] PyNone TRAIN PyNone None
      (Some example_previous) False None) = Inr [''t0_linear'', ''t1_dnn'']"
  by (simp add: report_keys_def candidate_names_def build_defs example_defs)

text \<open>
  What the two report paths compute. For every new builder, whenever the mode is not
  PREDICT, the report stored under the builder's name carries an \<open>"adanet_loss"\<close> metric
  that is \<open>tf.metrics.mean\<close> of the ensemble's AdaNet loss, and under every other metric
  name the ensemble's own eval metric if it has one of that name, else the metric of the
  builder's report hook. The block for the previous ensemble stores a report in EVAL mode:
  under \<open>"previous_ensemble"\<close> unless a builder has that name, with empty hparams and
  attributes, built from the stored eval-metrics pair plus the \<open>"adanet_loss"\<close> mean. In
  TRAIN mode that block stores nothing, which is where it falls short of the builders'
  path.
\<close>

lemma reports_per_candidate:
  assumes "build_iteration builder n bs features md labels psumm previous rebuilding params = Inr it"
  shows "(md \<noteq> PREDICT \<longrightarrow>
      (\<forall>x\<in>set bs. \<exists>r. map_of (subnetwork_reports it) (Builder.name x) = Some r
         \<and> map_of (metrics r) ''adanet_loss'' =
             Some (metrics_mean (EnsembleSpec.adanet_loss
               (new_ensemble_spec builder n features md labels previous rebuilding params
                  (ReadVar IterationStepVar) x)))
         \<and> (\<forall>m. m \<noteq> ''adanet_loss'' \<longrightarrow> map_of (metrics r) m =
               (case map_of (metrics_of (eval_metrics
                       (new_ensemble_spec builder n features md labels previous rebuilding
                          params (ReadVar IterationStepVar) x))) m of
                  Some v \<Rightarrow> Some v
                | None \<Rightarrow> (case build_subnetwork_report x of
                            None \<Rightarrow> None | Some own \<Rightarrow> map_of (metrics own) m)))))
   \<and> (md = EVAL \<longrightarrow>
      (\<forall>p. previous = Some p \<longrightarrow> ''previous_ensemble'' \<notin> Builder.name ` set bs \<longrightarrow>
         (\<exists>r. map_of (subnetwork_reports it) ''previous_ensemble'' = Some r
            \<and> hparams r = [] \<and> attributes r = []
            \<and> map_of (metrics r) ''adanet_loss'' =
                Some (metrics_mean (EnsembleSpec.adanet_loss p))
            \<and> (\<forall>m. m \<noteq> ''adanet_loss'' \<longrightarrow>
                  map_of (metrics r) m = map_of (metrics_of (eval_metrics p)) m))))
   \<and> (md \<noteq> EVAL \<longrightarrow> ''previous_ensemble'' \<notin> Builder.name ` set bs \<longrightarrow>
        map_of (subnetwork_reports it) ''previous_ensemble'' = None)"
proof -
  note r = build_iteration_reports [OF assms]
  have a: "\<exists>r. map_of (subnetwork_reports it) (Builder.name x) = Some r
         \<and> map_of (metrics r) ''adanet_loss'' =
             Some (metrics_mean (EnsembleSpec.adanet_loss
               (new_ensemble_spec builder n features md labels previous rebuilding params
                  (ReadVar IterationStepVar) x)))
         \<and> (\<forall>m. m \<noteq> ''adanet_loss'' \<longrightarrow> map_of (metrics r) m =
               (case map_of (metrics_of (eval_metrics
                       (new_ensemble_spec builder n features md labels previous rebuilding
                          params (ReadVar IterationStepVar) x))) m of
                  Some v \<Rightarrow> Some v
                | None \<Rightarrow> (case build_subnetwork_report x of
                            None \<Rightarrow> None | Some own \<Rightarrow> map_of (metrics own) m)))"
    if "md \<noteq> PREDICT" "x \<in> set bs" for x
  proof -
    from r that have "map_of (subnetwork_reports it) (Builder.name x) =
        Some (builder_report x
          (new_ensemble_spec builder n features md labels previous rebuilding params
             (ReadVar IterationStepVar) x))"
      by blast
    then show ?thesis
      using builder_report_adanet_loss builder_report_metrics by blast
  qed
  have b: "\<exists>r. map_of (subnetwork_reports it) ''previous_ensemble'' = Some r
            \<and> hparams r = [] \<and> attributes r = []
            \<and> map_of (metrics r) ''adanet_loss'' =
                Some (metrics_mean (EnsembleSpec.adanet_loss p))
            \<and> (\<forall>m. m \<noteq> ''adanet_loss'' \<longrightarrow>
                  map_of (metrics r) m = map_of (metrics_of (eval_metrics p)) m)"
    if "md = EVAL" "previous = Some p" "''previous_ensemble'' \<notin> Builder.name ` set bs" for p
  proof -
    from r that have "map_of (subnetwork_reports it) ''previous_ensemble'' =
        Some (previous_ensemble_report p)"
      by simp
    then show ?thesis using previous_ensemble_report_metrics [of p] by blast
  qed
  have c: "map_of (subnetwork_reports it) ''previous_ensemble'' = None"
    if "md \<noteq> EVAL" "''previous_ensemble'' \<notin> Builder.name ` set bs"
  proof (cases "md = PREDICT")
    case True
    with r show ?thesis by simp
  next
    case False
    with r that show ?thesis by (simp split: option.splits)
  qed
  from a b c show ?thesis by blast
qed

lemma reports_per_candidate_example:
  "(\<exists>it r. build_iteration example_builder 1 [dnn] PyNone TRAIN PyNone None
            (Some example_previous) False None = Inr it
       \<and> map_of (subnetwork_reports it) ''dnn'' = Some r
       \<and> map_of (metrics r) ''adanet_loss'' = Some (metrics_mean (GraphTensor 11))
       \<and> map_of (metrics r) ''accuracy'' = Some (GraphTensor 108, GraphOp 108)
       \<and> map_of (subnetwork_reports it) ''previous_ensemble'' = None)
   \<and> (\<exists>it r. build_iteration example_builder 1 [dnn] PyNone EVAL PyNone None
            (Some example_previous) False None = Inr it
       \<and> map_of (subnetwork_reports it) ''previous_ensemble'' = Some r
       \<and> map_of (metrics r) ''adanet_loss'' = Some (metrics_mean (GraphTensor 1))
       \<and> map_of (metrics r) ''accuracy'' = Some (GraphTensor 8, GraphOp 8))"
proof -
  have nm: "Builder.name dnn = ''dnn''" "''previous_ensemble'' \<notin> Builder.name ` set [dnn]"
    "build_subnetwork_report dnn = None"
    by (simp_all add: dnn_def)
  have acc: "''accuracy'' \<noteq> ''adanet_loss''" by simp
  from ex_train obtain it1 where
    b1: "build_iteration example_builder 1 [dnn] PyNone TRAIN PyNone None
            (Some example_previous) False None = Inr it1" by blast
  note t = reports_per_candidate [OF b1]
  have x: "dnn \<in> set [dnn]" "TRAIN \<noteq> PREDICT" "TRAIN \<noteq> EVAL" by simp_all
  from t x have "\<exists>r. map_of (subnetwork_reports it1) (Builder.name dnn) = Some r
         \<and> map_of (metrics r) ''adanet_loss'' =
             Some (metrics_mean (EnsembleSpec.adanet_loss
               (new_ensemble_spec example_builder 1 PyNone TRAIN PyNone (Some example_previous)
                  False None (ReadVar IterationStepVar) dnn)))
         \<and> (\<forall>m. m \<noteq> ''adanet_loss'' \<longrightarrow> map_of (metrics r) m =
               (case map_of (metrics_of (eval_metrics
                       (new_ensemble_spec example_builder 1 PyNone TRAIN PyNone
                          (Some example_previous) False None (ReadVar IterationStepVar) dnn))) m of
                  Some v \<Rightarrow> Some v
                | None \<Rightarrow> (case build_subnetwork_report dnn of
                            None \<Rightarrow> None | Some own \<Rightarrow> map_of (metrics own) m)))"
    by blast
  then obtain r1 where r1: "map_of (subnetwork_reports it1) ''dnn'' = Some r1"
    "map_of (metrics r1) ''adanet_loss'' =
       Some (metrics_mean (EnsembleSpec.adanet_loss
         (new_ensemble_spec example_builder 1 PyNone TRAIN PyNone (Some example_previous) False
            None (ReadVar IterationStepVar) dnn)))"
    "\<forall>m. m \<noteq> ''adanet_loss'' \<longrightarrow> map_of (metrics r1) m =
       (case map_of (metrics_of (eval_metrics
               (new_ensemble_spec example_builder 1 PyNone TRAIN PyNone (Some example_previous)
                  False None (ReadVar IterationStepVar) dnn))) m of
          Some v \<Rightarrow> Some v
        | None \<Rightarrow> (case build_subnetwork_report dnn of
                    None \<Rightarrow> None | Some own \<Rightarrow> map_of (metrics own) m))"
    unfolding nm by blast
  from r1(2) have l1: "map_of (metrics r1) ''adanet_loss'' = Some (metrics_mean (GraphTensor 11))"
    by (simp add: new_ensemble_spec_def example_defs)
  from r1(3) acc have a1: "map_of (metrics r1) ''accuracy'' = Some (GraphTensor 108, GraphOp 108)"
    by (simp add: new_ensemble_spec_def example_defs metrics_of_def)
  from t nm(2) x have n1: "map_of (subnetwork_reports it1) ''previous_ensemble'' = None"
    by blast
  from ex_eval obtain it2 where
    b2: "build_iteration example_builder 1 [dnn] PyNone EVAL PyNone None
            (Some example_previous) False None = Inr it2" by blast
  note e = reports_per_candidate [OF b2]
  from e nm(2) have "\<exists>r. map_of (subnetwork_reports it2) ''previous_ensemble'' = Some r
            \<and> hparams r = [] \<and> attributes r = []
            \<and> map_of (metrics r) ''adanet_loss'' =
                Some (metrics_mean (EnsembleSpec.adanet_loss example_previous))
            \<and> (\<forall>m. m \<noteq> ''adanet_loss'' \<longrightarrow>
                  map_of (metrics r) m = map_of (metrics_of (eval_metrics example_previous)) m)"
    by blast
  then obtain r2 where r2: "map_of (subnetwork_reports it2) ''previous_ensemble'' = Some r2"
    "map_of (metrics r2) ''adanet_loss'' =
       Some (metrics_mean (EnsembleSpec.adanet_loss example_previous))"
    "\<forall>m. m \<noteq> ''adanet_loss'' \<longrightarrow>
       map_of (metrics r2) m = map_of (metrics_of (eval_metrics example_previous)) m"
    by blast
  from r2(2) have l2: "map_of (metrics r2) ''adanet_loss'' = Some (metrics_mean (GraphTensor 1))"
    by (simp add: example_defs)
  from r2(3) acc have a2: "map_of (metrics r2) ''accuracy'' = Some (GraphTensor 8, GraphOp 8)"
    by (simp add: example_defs metrics_of_def)
  from b1 r1(1) l1 a1 n1 b2 r2(1) l2 a2 show ?thesis by blast
qed

text \<open>
  C10. In EVAL mode with a previous ensemble, whatever its name, the block for the
  previous best stores its report under the fixed key \<open>"previous_ensemble"\<close>, where it
  stays unless a builder has that name, and every builder's report is stored under the
  builder's own name. For the previous ensemble \<open>t0_linear\<close> and the builder \<open>dnn\<close> the
  report keys are \<open>previous_ensemble\<close> and \<open>dnn\<close> while the candidates are named
  \<open>t0_linear\<close> and \<open>t1_dnn\<close>.
\<close>

theorem previous_report_key:
  assumes "build_iteration builder n bs features EVAL labels psumm (Some p) rebuilding params = Inr it"
  shows "snd (snd (snd (previous_best builder EVAL (ReadVar IterationStepVar) psumm (Some p)))) =
       [(''previous_ensemble'', previous_ensemble_report p)]
   \<and> (''previous_ensemble'' \<notin> Builder.name ` set bs \<longrightarrow>
        map_of (subnetwork_reports it) ''previous_ensemble'' = Some (previous_ensemble_report p))
   \<and> (\<forall>x\<in>set bs. map_of (subnetwork_reports it) (Builder.name x) =
          Some (builder_report x
            (new_ensemble_spec builder n features EVAL labels (Some p) rebuilding params
               (ReadVar IterationStepVar) x)))
   \<and> report_keys (build_iteration example_builder 1 [dnn] PyNone EVAL PyNone None
        (Some example_previous) False None) = Inr [''previous_ensemble'', ''dnn'']
   \<and> candidate_names (build_iteration example_builder 1 [dnn] PyNone EVAL PyNone None
        (Some example_previous) False None) = Inr [''t0_linear'', ''t1_dnn'']"
proof -
  note r = build_iteration_reports [OF assms]
  have a: "snd (snd (snd (previous_best builder EVAL (ReadVar IterationStepVar) psumm (Some p)))) =
       [(''previous_ensemble'', previous_ensemble_report p)]"
    by (simp add: previous_best_def)
  from r have b: "''previous_ensemble'' \<notin> Builder.name ` set bs \<longrightarrow>
        map_of (subnetwork_reports it) ''previous_ensemble'' = Some (previous_ensemble_report p)"
    by simp
  from r have c: "\<forall>x\<in>set bs. map_of (subnetwork_reports it) (Builder.name x) =
          Some (builder_report x
            (new_ensemble_spec builder n features EVAL labels (Some p) rebuilding params
               (ReadVar IterationStepVar) x))"
    by simp
  have d: "report_keys (build_iteration example_builder 1 [dnn] PyNone EVAL PyNone None
        (Some example_previous) False None) = Inr [''previous_ensemble'', ''dnn'']"
    by (simp add: report_keys_def build_defs example_defs eval_defs)
  have e: "candidate_names (build_iteration example_builder 1 [dnn] PyNone EVAL PyNone None
        (Some example_previous) False None) = Inr [''t0_linear'', ''t1_dnn'']"
    by (simp add: candidate_names_def build_defs example_defs eval_defs)
  from a b c d e show ?thesis by blast
qed

theorem previous_report_key_witness:
  "\<exists>it. build_iteration example_builder 1 [dnn] PyNone EVAL PyNone None
            (Some example_previous) False None = Inr it
       \<and> map_of (subnetwork_reports it) ''previous_ensemble'' =
           Some (previous_ensemble_report example_previous)
       \<and> EnsembleSpec.name example_previous = ''t0_linear''
       \<and> map_of (subnetwork_reports it) ''dnn'' =
           Some (builder_report dnn
             (new_ensemble_spec example_builder 1 PyNone EVAL PyNone (Some example_previous)
                False None (ReadVar IterationStepVar) dnn))"
proof -
  have nm: "Builder.name dnn = ''dnn''" "''previous_ensemble'' \<notin> Builder.name ` set [dnn]"
    by (simp_all add: dnn_def)
  have pn: "EnsembleSpec.name example_previous = ''t0_linear''"
    by (simp add: example_defs)
  from ex_eval obtain it where
    b: "build_iteration example_builder 1 [dnn] PyNone EVAL PyNone None
            (Some example_previous) False None = Inr it" by blast
  have x: "dnn \<in> set [dnn]" by simp
  from previous_report_key [OF b] nm(2) x
  have "map_of (subnetwork_reports it) ''previous_ensemble'' =
           Some (previous_ensemble_report example_previous)"
    "map_of (subnetwork_reports it) ''dnn'' =
           Some (builder_report dnn
             (new_ensemble_spec example_builder 1 PyNone EVAL PyNone (Some example_previous)
                False None (ReadVar IterationStepVar) dnn))"
    unfolding nm(1) [symmetric] by blast+
  with b pn show ?thesis unfolding nm(1) [symmetric] by blast
qed

section \<open>Best evaluation metrics\<close>

lemma less_append_suffix: "ys \<noteq> [] \<Longrightarrow> (xs :: string) < xs @ ys"
  by (induction xs) (auto simp: neq_Nil_conv)

lemma endswith_iff:
  "endswith m suffix \<and> take (length m - length suffix) m = k \<longleftrightarrow> m = k @ suffix"
proof
  assume a: "endswith m suffix \<and> take (length m - length suffix) m = k"
  then have "take (length m - length suffix) m @ drop (length m - length suffix) m = k @ suffix"
    by (simp add: endswith_def)
  then show "m = k @ suffix" by simp
next
  assume "m = k @ suffix"
  then show "endswith m suffix \<and> take (length m - length suffix) m = k"
    by (simp add: endswith_def)
qed

lemma source_Cons_aux:
  fixes x y z :: "'a option"
  assumes "D \<Longrightarrow> x = z" "E \<Longrightarrow> y = z" "C \<Longrightarrow> \<not> D" "\<not> (D \<and> E)"
  shows "(case (if A \<and> (D \<or> B) then x else None) of
            Some l \<Rightarrow> Some l | None \<Rightarrow> (if E \<or> C then y else None)) =
         (case (case (if A \<and> B then x else None) of
                  Some l \<Rightarrow> Some l | None \<Rightarrow> (if C then y else None)) of
            Some l \<Rightarrow> Some l
          | None \<Rightarrow> (if (A \<and> D) \<or> E then z else None))"
  using assms by (cases x; cases y; cases z; cases A; cases B; cases C; cases D; cases E) simp_all

lemma source_Cons:
  assumes "k \<in> set names \<Longrightarrow> k @ suffix \<noteq> m" and "k \<noteq> k @ suffix"
  shows "source n g (m # names) k =
    (case source n g names k of
       Some l \<Rightarrow> Some l
     | None \<Rightarrow> (if (k \<noteq> ''loss'' \<and> k @ suffix = m) \<or> k = m then eligible n g m else None))"
proof -
  have a: "k @ suffix = m \<Longrightarrow> eligible n g (k @ suffix) = eligible n g m" by simp
  have b: "k = m \<Longrightarrow> eligible n g k = eligible n g m" by simp
  have c: "\<not> (k @ suffix = m \<and> k = m)" using assms(2) by auto
  have s1: "k @ suffix \<in> set (m # names) \<longleftrightarrow> (k @ suffix = m \<or> k @ suffix \<in> set names)"
    by auto
  have s2: "k \<in> set (m # names) \<longleftrightarrow> (k = m \<or> k \<in> set names)" by auto
  show ?thesis
    unfolding source_def s1 s2
    by (rule source_Cons_aux [OF a b assms(1) c])
qed

lemma best_eval_metrics_names_map:
  assumes bci: "map_of tensors ''best_candidate_index'' = Some (TensorEntry t)"
    and "sorted names"
  shows "\<exists>res. best_eval_metrics_names n tensors grouped names ops = Inr res \<and>
    (\<forall>k. map_of res k =
       (case source n grouped names k of
          Some l \<Rightarrow> Some (best_candidate_metric l t)
        | None \<Rightarrow> map_of ops k))"
  using assms(2)
proof (induction names arbitrary: ops)
  case Nil
  then show ?case by (simp add: source_def)
next
  case (Cons m names)
  then have sorted: "sorted names" and le: "\<forall>x\<in>set names. m \<le> x" by auto
  have sfx: "suffix \<noteq> []" by (simp add: suffix_def)
  have later: "k \<in> set names \<Longrightarrow> k @ suffix \<noteq> m" for k
    using le less_append_suffix [OF sfx, of k] by auto
  have neq: "k \<noteq> k @ suffix" for k using sfx by simp
  define ops' where "ops' =
     (case eligible n grouped m of
        None \<Rightarrow> ops
      | Some l \<Rightarrow>
          (let ops1 = dict_set m (best_candidate_metric l t) ops
           in if \<not> endswith m suffix then ops1
              else if take (length m - length suffix) m = ''loss'' then ops1
              else dict_set (take (length m - length suffix) m) (best_candidate_metric l t) ops1))"
  have step: "best_eval_metrics_names n tensors grouped (m # names) ops =
      best_eval_metrics_names n tensors grouped names ops'"
    by (auto simp: ops'_def eligible_def bci Let_def split: option.splits)
  have m_ops': "map_of ops' k =
      (case (if (k \<noteq> ''loss'' \<and> k @ suffix = m) \<or> k = m then eligible n grouped m else None) of
         Some l \<Rightarrow> Some (best_candidate_metric l t)
       | None \<Rightarrow> map_of ops k)" for k
  proof (cases "eligible n grouped m")
    case None
    then show ?thesis by (simp add: ops'_def)
  next
    case (Some l)
    show ?thesis
    proof (cases "endswith m suffix")
      case True
      with endswith_iff [of m "take (length m - length suffix) m"]
      have eq: "m = take (length m - length suffix) m @ suffix" by simp
      have iff: "m = k @ suffix \<longleftrightarrow> k = take (length m - length suffix) m"
        using eq by (metis append_same_eq)
      show ?thesis
        using Some True iff by (auto simp: ops'_def Let_def map_of_dict_set)
    next
      case False
      with endswith_iff [of m k] have "m \<noteq> k @ suffix" by blast
      with Some False show ?thesis by (auto simp: ops'_def Let_def map_of_dict_set)
    qed
  qed
  from Cons.IH [OF sorted, of ops'] obtain res where
    res: "best_eval_metrics_names n tensors grouped names ops' = Inr res"
    and ih: "\<And>k. map_of res k =
       (case source n grouped names k of
          Some l \<Rightarrow> Some (best_candidate_metric l t)
        | None \<Rightarrow> map_of ops' k)"
    by blast
  have "map_of res k =
       (case source n grouped (m # names) k of
          Some l \<Rightarrow> Some (best_candidate_metric l t)
        | None \<Rightarrow> map_of ops k)" for k
  proof -
    have e1: "source n grouped (m # names) k =
      (case source n grouped names k of
         Some l \<Rightarrow> Some l
       | None \<Rightarrow> (if (k \<noteq> ''loss'' \<and> k @ suffix = m) \<or> k = m
                   then eligible n grouped m else None))"
      by (rule source_Cons [OF later neq])
    show ?thesis
      unfolding ih [of k] m_ops' [of k] e1
      by (cases "source n grouped names k") simp_all
  qed
  with res step show ?case by auto
qed

lemma distinct_sorted_keys: "distinct (sorted_keys d)"
  by (simp add: sorted_keys_def)

lemma sorted_sorted_keys: "sorted (sorted_keys d)"
  by (simp add: sorted_keys_def)

lemma map_of_foldl_append_metric_op:
  "distinct ks \<Longrightarrow>
   map_of (foldl (append_metric_op ops) g ks) m =
     (if m \<in> set ks then
        (case map_of ops m of None \<Rightarrow> map_of g m | Some x \<Rightarrow> Some (collected g m @ [x]))
      else map_of g m)"
proof (induction ks arbitrary: g)
  case Nil
  then show ?case by simp
next
  case (Cons k ks)
  have other: "m \<noteq> k \<Longrightarrow> map_of (append_metric_op ops g k) m = map_of g m"
    by (auto simp: append_metric_op_def map_of_dict_set split: option.splits)
  have same: "map_of (append_metric_op ops g k) k =
      (case map_of ops k of None \<Rightarrow> map_of g k | Some x \<Rightarrow> Some (collected g k @ [x]))"
    by (auto simp: append_metric_op_def map_of_dict_set collected_def split: option.splits)
  from Cons.prems have d: "distinct ks" "k \<notin> set ks" by auto
  show ?case
  proof (cases "m = k")
    case True
    from Cons.IH [OF d(1), of "append_metric_op ops g k"] d(2) same show ?thesis
      unfolding True by simp
  next
    case False
    with Cons.IH [OF d(1), of "append_metric_op ops g k"] other show ?thesis
      by (simp add: collected_def split: option.splits)
  qed
qed

lemma collected_run:
  "collected (foldl (append_metric_op ops) g (sorted_keys ops)) m =
     collected g m @ (case map_of ops m of None \<Rightarrow> [] | Some x \<Rightarrow> [x])"
proof -
  have "m \<notin> set (sorted_keys ops) \<Longrightarrow> map_of ops m = None"
    by (simp add: set_sorted_keys map_of_eq_None_iff)
  then show ?thesis
    by (auto simp: collected_def map_of_foldl_append_metric_op [OF distinct_sorted_keys]
        split: option.splits)
qed

lemma nonempty_run:
  assumes "\<forall>m. map_of g m \<noteq> Some []"
  shows "map_of (foldl (append_metric_op ops) g (sorted_keys ops)) m \<noteq> Some []"
  using assms
  by (auto simp: map_of_foldl_append_metric_op [OF distinct_sorted_keys] split: option.splits)

lemma group_metric_ops_keys_collected:
  assumes "\<forall>k\<in>set ks. \<forall>f. map_of fns k = Some f \<longrightarrow> (\<exists>a. map_of tensors k = Some (KwargsEntry a))"
    and "\<forall>m. map_of g m \<noteq> Some []"
  shows "\<exists>g'. group_metric_ops_keys fns tensors ks g = Inr g'
    \<and> (\<forall>m. collected g' m = collected g m @ List.map_filter (key_metric fns tensors m) ks)
    \<and> (\<forall>m. map_of g' m \<noteq> Some [])"
  using assms
proof (induction ks arbitrary: g)
  case Nil
  then show ?case by simp
next
  case (Cons k ks)
  from Cons.prems(1) have rest: "\<forall>k\<in>set ks. \<forall>f. map_of fns k = Some f \<longrightarrow>
      (\<exists>a. map_of tensors k = Some (KwargsEntry a))" by simp
  show ?case
  proof (cases "map_of fns k")
    case None
    then have "key_metric fns tensors m k = None" for m by (simp add: key_metric_def)
    with None Cons.IH [OF rest Cons.prems(2)] show ?thesis
      by simp
  next
    case (Some f)
    with Cons.prems(1) obtain a where a: "map_of tensors k = Some (KwargsEntry a)" by auto
    let ?g = "foldl (append_metric_op (f a)) g (sorted_keys (f a))"
    have ne: "\<forall>m. map_of ?g m \<noteq> Some []"
      using nonempty_run [OF Cons.prems(2)] by simp
    from Cons.IH [OF rest ne] obtain g' where
      g': "group_metric_ops_keys fns tensors ks ?g = Inr g'"
      "\<forall>m. collected g' m = collected ?g m @ List.map_filter (key_metric fns tensors m) ks"
      "\<forall>m. map_of g' m \<noteq> Some []" by blast
    have km: "key_metric fns tensors m k = map_of (f a) m" for m
      using Some a by (simp add: key_metric_def)
    have "collected g' m =
        collected g m @ List.map_filter (key_metric fns tensors m) (k # ks)" for m
      using g'(2) [rule_format, of m] collected_run [of "f a" g m] km [of m]
      by (simp split: option.splits)
    with g' Some a show ?thesis by simp
  qed
qed

lemma map_filter_cong_set:
  "(\<And>x. x \<in> set xs \<Longrightarrow> f x = g x) \<Longrightarrow> List.map_filter f xs = List.map_filter g xs"
  by (induction xs) (auto split: option.splits)

lemma length_map_filter_le: "length (List.map_filter f xs) \<le> length xs"
  by (induction xs) (auto split: option.splits)

lemma map_filter_all:
  "length (List.map_filter f xs) = length xs \<Longrightarrow> i < length xs \<Longrightarrow>
     f (xs ! i) = Some (List.map_filter f xs ! i)"
proof (induction xs arbitrary: i)
  case Nil
  then show ?case by simp
next
  case (Cons x xs)
  show ?case
  proof (cases "f x")
    case None
    with Cons.prems(1) length_map_filter_le [of f xs] show ?thesis
      by simp
  next
    case (Some y)
    with Cons show ?thesis
      by (cases i) auto
  qed
qed

lemma digit_char_code: "i < 10 \<Longrightarrow> (of_char (digit_char i) :: nat) = 48 + i"
proof -
  assume "i < 10"
  then have "i = 0 \<or> i = 1 \<or> i = 2 \<or> i = 3 \<or> i = 4 \<or> i = 5 \<or> i = 6
    \<or> i = 7 \<or> i = 8 \<or> i = 9" by arith
  then show ?thesis by (auto simp: digit_char_def)
qed

lemma candidate_key_less:
  assumes "i < j" "j < 10"
  shows "candidate_key i < candidate_key j"
proof -
  from assms have "(of_char (digit_char i) :: nat) < of_char (digit_char j)"
    by (simp add: digit_char_code)
  then have "digit_char i < digit_char j" by (simp add: less_char_def)
  with assms show ?thesis by (simp add: candidate_key_def str_nat.simps)
qed

lemma candidate_key_not_best: "candidate_key j \<noteq> ''best_candidate_index''"
  by (simp add: candidate_key_def)

lemma collate_from_keys:
  assumes "collate_from i cands = (fns, tensors)"
  shows "map fst tensors = map fst fns
    \<and> (\<forall>k\<in>set (map fst fns). \<exists>j\<ge>i. j < i + length cands \<and> k = candidate_key j)
    \<and> (\<forall>e\<in>set tensors. \<exists>a. snd e = KwargsEntry a)"
  using assms
proof (induction cands arbitrary: i fns tensors)
  case Nil
  then show ?case by simp
next
  case (Cons c cands)
  show ?case
  proof (cases "eval_metrics (ensemble_spec c)")
    case None
    with Cons.prems have "collate_from (Suc i) cands = (fns, tensors)" by simp
    from Cons.IH [OF this] have ih: "map fst tensors = map fst fns"
      "\<forall>k\<in>set (map fst fns). \<exists>j\<ge>Suc i. j < Suc i + length cands \<and> k = candidate_key j"
      "\<forall>e\<in>set tensors. \<exists>a. snd e = KwargsEntry a" by auto
    have "\<exists>j\<ge>i. j < i + length (c # cands) \<and> k = candidate_key j"
      if "k \<in> set (map fst fns)" for k
    proof -
      from ih(2) that obtain j where "j \<ge> Suc i" "j < Suc i + length cands"
        "k = candidate_key j" by blast
      then show ?thesis by (intro exI [of _ j]) simp
    qed
    with ih show ?thesis by blast
  next
    case (Some p)
    obtain fn kw where p: "p = (fn, kw)" by (cases p) auto
    obtain fns' tensors' where r: "collate_from (Suc i) cands = (fns', tensors')"
      by (cases "collate_from (Suc i) cands") auto
    with Cons.prems Some p have e: "fns = (candidate_key i, fn) # fns'"
      "tensors = (candidate_key i, KwargsEntry kw) # tensors'" by auto
    from Cons.IH [OF r] have ih: "map fst tensors' = map fst fns'"
      "\<forall>k\<in>set (map fst fns'). \<exists>j\<ge>Suc i. j < Suc i + length cands \<and> k = candidate_key j"
      "\<forall>e\<in>set tensors'. \<exists>a. snd e = KwargsEntry a" by auto
    have "\<exists>j\<ge>i. j < i + length (c # cands) \<and> k = candidate_key j"
      if "k \<in> set (map fst fns)" for k
    proof (cases "k = candidate_key i")
      case True
      then show ?thesis by auto
    next
      case False
      with that e have "k \<in> set (map fst fns')" by auto
      with ih(2) obtain j where "j \<ge> Suc i" "j < Suc i + length cands" "k = candidate_key j"
        by blast
      then show ?thesis by (intro exI [of _ j]) simp
    qed
    with e ih show ?thesis by auto
  qed
qed

lemma collate_from_order:
  assumes "collate_from i cands = (fns, tensors)" and "i + length cands \<le> 10"
  shows "sorted_wrt (<) (map fst fns)
    \<and> (\<forall>m. List.map_filter (key_metric fns tensors m) (map fst fns) =
          List.map_filter (candidate_metric m) cands)"
  using assms
proof (induction cands arbitrary: i fns tensors)
  case Nil
  then show ?case by simp
next
  case (Cons c cands)
  show ?case
  proof (cases "eval_metrics (ensemble_spec c)")
    case None
    with Cons.prems have r: "collate_from (Suc i) cands = (fns, tensors)"
      and b: "Suc i + length cands \<le> 10" by simp_all
    from Cons.IH [OF r b] None show ?thesis by (simp add: candidate_metric_def)
  next
    case (Some p)
    obtain fn kw where p: "p = (fn, kw)" by (cases p) auto
    obtain fns' tensors' where r: "collate_from (Suc i) cands = (fns', tensors')"
      by (cases "collate_from (Suc i) cands") auto
    from Cons.prems have b: "Suc i + length cands \<le> 10" by simp
    from Cons.prems Some p r have e: "fns = (candidate_key i, fn) # fns'"
      "tensors = (candidate_key i, KwargsEntry kw) # tensors'" by auto
    note ih = Cons.IH [OF r b]
    note keys = collate_from_keys [OF r]
    have gt: "candidate_key i < k" if "k \<in> set (map fst fns')" for k
    proof -
      from keys that obtain j where "j \<ge> Suc i" "j < Suc i + length cands" "k = candidate_key j"
        by blast
      with b show ?thesis using candidate_key_less [of i j] by simp
    qed
    have s: "sorted_wrt (<) (map fst fns)" using e ih gt by simp
    have "List.map_filter (key_metric fns tensors m) (map fst fns) =
          List.map_filter (candidate_metric m) (c # cands)" for m
    proof -
      have here: "key_metric fns tensors m (candidate_key i) = candidate_metric m c"
        using e Some p by (simp add: key_metric_def candidate_metric_def)
      have kk: "key_metric fns tensors m k = key_metric fns' tensors' m k"
        if "k \<in> set (map fst fns')" for k
      proof -
        from gt [OF that] have "candidate_key i \<noteq> k" by (rule less_imp_neq)
        then have "k \<noteq> candidate_key i" by (rule not_sym)
        then have "map_of fns k = map_of fns' k" "map_of tensors k = map_of tensors' k"
          by (simp_all add: e)
        then show ?thesis by (simp only: key_metric_def)
      qed
      have "List.map_filter (key_metric fns tensors m) (map fst fns') =
          List.map_filter (key_metric fns' tensors' m) (map fst fns')"
      proof (rule map_filter_cong_set)
        fix x assume "x \<in> set (map fst fns')"
        then show "key_metric fns tensors m x = key_metric fns' tensors' m x" by (rule kk)
      qed
      with ih here e show ?thesis by (simp split: option.splits)
    qed
    with s show ?thesis by blast
  qed
qed

lemma sorted_keys_id:
  assumes "sorted_wrt (<) (map fst (d :: (string \<times> 'v) list))"
  shows "sorted_keys d = map fst d"
proof -
  from assms have "sorted (map fst d)" "distinct (map fst d)"
    by (simp_all add: strict_sorted_iff)
  then show ?thesis by (simp add: sorted_keys_def sorted_sort_id)
qed

lemma source_sorted_keys:
  "source n grouped (sorted_keys grouped) k =
     (case (if k = ''loss'' then None else eligible n grouped (k @ suffix)) of
        Some l \<Rightarrow> Some l
      | None \<Rightarrow> eligible n grouped k)"
proof -
  have "eligible n grouped x = None" if "x \<notin> set (sorted_keys grouped)" for x
  proof -
    from that have "map_of grouped x = None"
      by (simp add: set_sorted_keys map_of_eq_None_iff)
    then show ?thesis by (simp add: eligible_def)
  qed
  then show ?thesis
    by (auto simp: source_def split: option.splits)
qed


lemmas metric_eval_defs = best_metric_def call_best_eval_metrics_def
  create_best_eval_metrics_tuple_def best_eval_metrics_fn_def group_metric_ops_def
  collate_metric_fns_and_tensors_def candidate_key_def flatten_dict_def append_metric_op_def
  best_candidate_metric_def metrics_mean_def suffix_def endswith_def batch_size_of_def
  sorted_keys_def str_nat.simps digit_char_def Let_def candidate_metric_def
  metric_spec_def example_metric_fn_def example_spec_def example_candidate_def
  example_previous_def

text \<open>
  A candidate list of length one whose only candidate reports both \<open>accuracy\<close> and
  \<open>accuracy/adanet/adanet_weighted_ensemble\<close>: the operations collected for \<open>accuracy\<close>
  are as many as the candidates, yet the entry under \<open>accuracy\<close> is the aggregate of the
  suffixed metric (tensor 40), not of \<open>accuracy\<close> itself (tensor 8). With a candidate that
  reports the suffixed metric only, nothing is collected for \<open>accuracy\<close> and the mapping
  still has an entry under it.
\<close>

theorem root_name_counterexample:
  "candidate_metric ''accuracy'' both_metrics = Some (GraphTensor 8, GraphOp 8)
   \<and> best_metric [both_metrics] (Constant 0) None ''accuracy'' =
       Some (StackIndex [GraphTensor 40] (CastInt32 (MeanValue (Tile (Constant 0) 1))),
             Group [GraphOp 40, MeanUpdate (Tile (Constant 0) 1)])
   \<and> candidate_metric ''accuracy'' only_suffixed = None
   \<and> best_metric [only_suffixed] (Constant 0) None ''accuracy'' =
       Some (StackIndex [GraphTensor 40] (CastInt32 (MeanValue (Tile (Constant 0) 1))),
             Group [GraphOp 40, MeanUpdate (Tile (Constant 0) 1)])"
  by (simp add: both_metrics_def only_suffixed_def metric_eval_defs)


text \<open>
  C5 (as the code has it). The best-eval-metrics function returns a mapping in which a
  key \<open>k\<close> has an entry if and only if the operations collected for \<open>k\<close> are as many as
  the candidates, or \<open>k\<close> is not \<open>"loss"\<close> and those collected for \<open>k\<close> followed by
  \<open>"/adanet/adanet_weighted_ensemble"\<close> are. The entry is the aggregate of the suffixed
  name in the second case (which takes precedence) and of \<open>k\<close> itself otherwise. An
  aggregate is \<open>tf.stack\<close> of the collected values indexed by the cast mean of the tiled
  best index, with the group of the collected update operations and the update operation
  of that mean. With at most ten candidates the collected values are in candidate order:
  the value at position \<open>i\<close> is the metric of candidate \<open>i\<close>.
\<close>

theorem best_eval_metrics_entries:
  "\<exists>grouped res.
      group_metric_ops (fst (collate_metric_fns_and_tensors cands))
        (best_tensors cands best_index params) = Inr grouped
    \<and> call_best_eval_metrics (create_best_eval_metrics_tuple cands best_index EVAL params) =
        Inr (Some res)
    \<and> (\<forall>k. map_of res k =
         (case (if k = ''loss'' then None else eligible (length cands) grouped (k @ suffix)) of
            Some l \<Rightarrow> Some (best_candidate_metric l (Tile best_index (batch_size_of params)))
          | None \<Rightarrow>
              (case eligible (length cands) grouped k of
                 Some l \<Rightarrow> Some (best_candidate_metric l (Tile best_index (batch_size_of params)))
               | None \<Rightarrow> None)))
    \<and> (\<forall>l t. best_candidate_metric l t =
          (StackIndex (map fst l) (CastInt32 (MeanValue t)), Group (map snd l @ [MeanUpdate t])))
    \<and> (length cands \<le> 10 \<longrightarrow>
         (\<forall>m l. eligible (length cands) grouped m = Some l \<longrightarrow>
            (\<forall>i<length cands. candidate_metric m (cands ! i) = Some (l ! i))))"
proof -
  let ?bci = "Tile best_index (batch_size_of params)"
  obtain fns tensors0 where c: "collate_from 0 cands = (fns, tensors0)"
    by (cases "collate_from 0 cands") auto
  let ?tensors = "dict_set ''best_candidate_index'' (TensorEntry ?bci) tensors0"
  have bt: "best_tensors cands best_index params = ?tensors"
    by (simp add: best_tensors_def collate_metric_fns_and_tensors_def c)
  have fs: "fst (collate_metric_fns_and_tensors cands) = fns"
    by (simp add: collate_metric_fns_and_tensors_def c)
  note keys = collate_from_keys [OF c]
  have same: "map_of ?tensors k = map_of tensors0 k" if "k \<in> set (map fst fns)" for k
  proof -
    from keys that obtain j where "k = candidate_key j" by blast
    then have "k \<noteq> ''best_candidate_index''" by (simp add: candidate_key_not_best)
    then show ?thesis by (simp add: map_of_dict_set)
  qed
  have A: "\<forall>k\<in>set (sorted_keys fns). \<forall>f. map_of fns k = Some f \<longrightarrow>
      (\<exists>a. map_of ?tensors k = Some (KwargsEntry a))"
  proof (intro ballI allI impI)
    fix k f assume k: "k \<in> set (sorted_keys fns)"
    then have kf: "k \<in> set (map fst fns)" by (simp add: set_sorted_keys)
    with keys have "k \<in> fst ` set tensors0" by (metis set_map)
    then obtain v where v: "map_of tensors0 k = Some v"
      by (cases "map_of tensors0 k") (auto simp: map_of_eq_None_iff)
    then have "(k, v) \<in> set tensors0" by (rule map_of_SomeD)
    with keys obtain a where "v = KwargsEntry a" by fastforce
    with v same [OF kf] show "\<exists>a. map_of ?tensors k = Some (KwargsEntry a)" by simp
  qed
  have ne: "\<forall>m. map_of ([] :: (string \<times> metric list) list) m \<noteq> Some []" by simp
  from group_metric_ops_keys_collected [OF A ne] obtain grouped where
    g: "group_metric_ops fns ?tensors = Inr grouped"
    and col: "\<And>m. collected grouped m =
        List.map_filter (key_metric fns ?tensors m) (sorted_keys fns)"
    by (auto simp: group_metric_ops_def collected_def)
  have B: "map_of ?tensors ''best_candidate_index'' = Some (TensorEntry ?bci)"
    by (simp add: map_of_dict_set)
  from best_eval_metrics_names_map [OF B sorted_sorted_keys, of "length cands" grouped grouped "[]"]
  obtain res where
    r: "best_eval_metrics_names (length cands) ?tensors grouped (sorted_keys grouped) [] = Inr res"
    and m0: "\<And>k. map_of res k =
       (case source (length cands) grouped (sorted_keys grouped) k of
          Some l \<Rightarrow> Some (best_candidate_metric l ?bci)
        | None \<Rightarrow> map_of [] k)"
    by blast
  have m: "map_of res k =
       (case source (length cands) grouped (sorted_keys grouped) k of
          Some l \<Rightarrow> Some (best_candidate_metric l ?bci)
        | None \<Rightarrow> None)" for k
    unfolding m0 [of k] by (simp split: option.splits)
  have call: "call_best_eval_metrics
      (create_best_eval_metrics_tuple cands best_index EVAL params) = Inr (Some res)"
    using g r
    by (simp add: create_best_eval_metrics_tuple_def collate_metric_fns_and_tensors_def c
        call_best_eval_metrics_def best_eval_metrics_fn_def flatten_dict_def)
  have entries: "map_of res k =
         (case (if k = ''loss'' then None else eligible (length cands) grouped (k @ suffix)) of
            Some l \<Rightarrow> Some (best_candidate_metric l ?bci)
          | None \<Rightarrow>
              (case eligible (length cands) grouped k of
                 Some l \<Rightarrow> Some (best_candidate_metric l ?bci)
               | None \<Rightarrow> None))" for k
    unfolding m [of k] source_sorted_keys
    by (simp split: option.splits)
  have form: "best_candidate_metric l t =
      (StackIndex (map fst l) (CastInt32 (MeanValue t)), Group (map snd l @ [MeanUpdate t]))"
    for l t
    by (simp add: best_candidate_metric_def metrics_mean_def)
  have order: "candidate_metric x (cands ! i) = Some (l ! i)"
    if le: "length cands \<le> 10" and el: "eligible (length cands) grouped x = Some l"
      and i: "i < length cands" for x l i
  proof -
    from le have b: "0 + length cands \<le> 10" by simp
    note o = collate_from_order [OF c b]
    from o have sk: "sorted_keys fns = map fst fns" by (simp add: sorted_keys_id)
    have "List.map_filter (key_metric fns ?tensors x) (map fst fns) =
        List.map_filter (key_metric fns tensors0 x) (map fst fns)"
    proof (rule map_filter_cong_set)
      fix k assume "k \<in> set (map fst fns)"
      from same [OF this] show "key_metric fns ?tensors x k = key_metric fns tensors0 x k"
        by (simp only: key_metric_def)
    qed
    with o col [of x] sk have cl: "collected grouped x = List.map_filter (candidate_metric x) cands"
      by simp
    from el have l: "collected grouped x = l" "length l = length cands"
      by (auto simp: eligible_def collected_def split: option.splits if_splits)
    from map_filter_all [of "candidate_metric x" cands i] cl l i show ?thesis by simp
  qed
  from g call entries form order show ?thesis
    unfolding bt fs by blast
qed

theorem best_eval_metrics_entries_witness:
  "length previous_and_new \<le> 10
   \<and> (\<exists>res. call_best_eval_metrics
               (create_best_eval_metrics_tuple previous_and_new (GraphTensor 0) EVAL None) =
             Inr (Some res)
        \<and> map_of res ''accuracy'' =
            Some (StackIndex [GraphTensor 8, GraphTensor 108]
                    (CastInt32 (MeanValue (Tile (GraphTensor 0) 1))),
                  Group [GraphOp 8, GraphOp 108, MeanUpdate (Tile (GraphTensor 0) 1)])
        \<and> map_of res ''accuracy/adanet/adanet_weighted_ensemble'' = None)
   \<and> candidate_metric ''accuracy'' (previous_and_new ! 0) = Some (GraphTensor 8, GraphOp 8)
   \<and> candidate_metric ''accuracy'' (previous_and_new ! 1) = Some (GraphTensor 108, GraphOp 108)"
proof -
  let ?t = "Tile (GraphTensor 0) (batch_size_of None)"
  have len: "length previous_and_new \<le> 10" "length previous_and_new = 2"
    by (simp_all add: previous_and_new_def)
  have bs: "batch_size_of None = 1" by (simp add: batch_size_of_def)
  from best_eval_metrics_entries [of previous_and_new "GraphTensor 0" None]
  obtain grouped res where
    g: "group_metric_ops (fst (collate_metric_fns_and_tensors previous_and_new))
        (best_tensors previous_and_new (GraphTensor 0) None) = Inr grouped"
    and call: "call_best_eval_metrics
        (create_best_eval_metrics_tuple previous_and_new (GraphTensor 0) EVAL None) = Inr (Some res)"
    and entries: "\<And>k. map_of res k =
         (case (if k = ''loss'' then None
                else eligible (length previous_and_new) grouped (k @ suffix)) of
            Some l \<Rightarrow> Some (best_candidate_metric l ?t)
          | None \<Rightarrow>
              (case eligible (length previous_and_new) grouped k of
                 Some l \<Rightarrow> Some (best_candidate_metric l ?t)
               | None \<Rightarrow> None))"
    and order: "length previous_and_new \<le> 10 \<longrightarrow>
         (\<forall>m l. eligible (length previous_and_new) grouped m = Some l \<longrightarrow>
            (\<forall>i<length previous_and_new. candidate_metric m (previous_and_new ! i) = Some (l ! i)))"
    by blast
  have "group_metric_ops (fst (collate_metric_fns_and_tensors previous_and_new))
        (best_tensors previous_and_new (GraphTensor 0) None) =
      Inr [(''accuracy'', [(GraphTensor 8, GraphOp 8), (GraphTensor 108, GraphOp 108)]),
           (''accuracy/adanet/adanet_weighted_ensemble'', [(GraphTensor 140, GraphOp 140)])]"
    by (simp add: previous_and_new_def best_tensors_def metric_eval_defs)
  with g have grouped: "grouped =
      [(''accuracy'', [(GraphTensor 8, GraphOp 8), (GraphTensor 108, GraphOp 108)]),
       (''accuracy/adanet/adanet_weighted_ensemble'', [(GraphTensor 140, GraphOp 140)])]"
    by simp
  have e1: "eligible (length previous_and_new) grouped ''accuracy'' =
      Some [(GraphTensor 8, GraphOp 8), (GraphTensor 108, GraphOp 108)]"
    by (simp add: grouped len eligible_def)
  have e2: "eligible (length previous_and_new) grouped (''accuracy'' @ suffix) = None"
    by (simp add: grouped len eligible_def suffix_def)
  have e3: "eligible (length previous_and_new) grouped
      (''accuracy/adanet/adanet_weighted_ensemble'' @ suffix) = None"
    by (simp add: grouped len eligible_def suffix_def)
  have e4: "eligible (length previous_and_new) grouped
      ''accuracy/adanet/adanet_weighted_ensemble'' = None"
    by (simp add: grouped len eligible_def)
  have r1: "map_of res ''accuracy'' =
      Some (StackIndex [GraphTensor 8, GraphTensor 108]
              (CastInt32 (MeanValue (Tile (GraphTensor 0) 1))),
            Group [GraphOp 8, GraphOp 108, MeanUpdate (Tile (GraphTensor 0) 1)])"
    unfolding entries [of "''accuracy''"] e1 e2
    by (simp add: best_candidate_metric_def metrics_mean_def bs)
  have r2: "map_of res ''accuracy/adanet/adanet_weighted_ensemble'' = None"
    unfolding entries [of "''accuracy/adanet/adanet_weighted_ensemble''"] e3 e4
    by simp
  from order len(1) e1 have o: "\<forall>i<length previous_and_new.
      candidate_metric ''accuracy'' (previous_and_new ! i) =
        Some ([(GraphTensor 8, GraphOp 8), (GraphTensor 108, GraphOp 108)] ! i)"
    by blast
  from o len(2) have c0: "candidate_metric ''accuracy'' (previous_and_new ! 0) =
      Some (GraphTensor 8, GraphOp 8)" by simp
  have "1 < length previous_and_new" using len(2) by simp
  with o have c1: "candidate_metric ''accuracy'' (previous_and_new ! 1) =
      Some (GraphTensor 108, GraphOp 108)" by fastforce
  from len(1) call r1 r2 c0 c1 show ?thesis by blast
qed

text \<open>
  The metric functions are run in the order of \<open>sorted(metric_fns)\<close>, the string order of
  the keys \<open>candidate_0\<close>, \<open>candidate_1\<close>, \<open>candidate_10\<close>, \<open>candidate_2\<close>, ...: with eleven
  candidates the value stacked at position 2 is that of candidate 10 (tensor 1008), while
  candidate 2 has tensor 208.
\<close>

lemma eleven_candidates_stacked_in_key_order:
  "best_metric eleven_candidates (GraphTensor 0) None ''accuracy'' =
     Some (StackIndex
             [GraphTensor 8, GraphTensor 108, GraphTensor 1008, GraphTensor 208,
              GraphTensor 308, GraphTensor 408, GraphTensor 508, GraphTensor 608,
              GraphTensor 708, GraphTensor 808, GraphTensor 908]
             (CastInt32 (MeanValue (Tile (GraphTensor 0) 1))),
           Group [GraphOp 8, GraphOp 108, GraphOp 1008, GraphOp 208, GraphOp 308, GraphOp 408,
                  GraphOp 508, GraphOp 608, GraphOp 708, GraphOp 808, GraphOp 908,
                  MeanUpdate (Tile (GraphTensor 0) 1)])
   \<and> candidate_metric ''accuracy'' (eleven_candidates ! 2) = Some (GraphTensor 208, GraphOp 208)"
  by (simp add: eleven_candidates_def metric_eval_defs)

end
